theory Spec2Isabelle
  imports Main "HOL-Library.Word"
begin

unbundle bit_operations_syntax

section \<open>Data model\<close>

text \<open>
  Python \<open>bytes\<close> are lists of 8-bit words; Python \<open>str\<close> values are \<open>string\<close>s;
  Python's unbounded integers are \<open>int\<close>.  Every \<open>raise\<close> of the notebook, and every
  exception of a library call it makes, is a value of \<open>error\<close>.
\<close>

type_synonym byte = "8 word"
type_synonym bytes = "byte list"

datatype error =
    IndexTooLarge        \<comment> \<open>\<open>Exception('Index must be representable with 32 bits. ...')\<close>\<close>
  | InvalidNanoAddress   \<comment> \<open>\<open>Exception('Invalid Nano address: ...')\<close>\<close>
  | InvalidChecksum      \<comment> \<open>\<open>Exception('Invalid Nano address. Could not validate checksum.')\<close>\<close>
  | UnknownBlockType     \<comment> \<open>\<open>Exception('Block type cannot be determined from link attribute: ...')\<close>\<close>
  | BinasciiError        \<comment> \<open>\<open>binascii.Error\<close> of \<open>unhexlify\<close>\<close>
  | OverflowError        \<comment> \<open>\<open>int.to_bytes\<close> on a value that does not fit\<close>
  | ValueError           \<comment> \<open>\<open>int(str)\<close> or the base-32 decoder on a malformed text\<close>

text \<open>The \<open>Block\<close> typed dictionary.  \<open>signature\<close> and \<open>work\<close> are filled in after
  construction, so they may be absent.\<close>

record block =
  type_tag :: string
  account :: string
  previous :: string
  representative :: string
  balance :: string
  link :: string
  signature :: "string option"
  work :: "string option"

subsection \<open>Module constants\<close>

definition SEED_SIZE_BYTES :: nat where "SEED_SIZE_BYTES = 32"
definition KEYS_SIZE_BYTES :: nat where "KEYS_SIZE_BYTES = 32"
definition CHECKSUM_DIGEST_SIZE_BYTES :: nat where "CHECKSUM_DIGEST_SIZE_BYTES = 5"
definition PRIVATE_KEY_INDEX_SIZE_BYTES :: nat where "PRIVATE_KEY_INDEX_SIZE_BYTES = 4"
definition SIGNATURE_DIGEST_SIZE_BYTES :: nat where "SIGNATURE_DIGEST_SIZE_BYTES = 32"
definition WORK_SIZE_BYTES :: nat where "WORK_SIZE_BYTES = 8"
definition BALANCE_SIZE_BYTES :: nat where "BALANCE_SIZE_BYTES = 16"
definition MAX_NONCE_SIZE :: int where "MAX_NONCE_SIZE = 2 ^ 64 - 1"
definition MINIMUM_NETWORK_DIFFICULTY :: string where
  "MINIMUM_NETWORK_DIFFICULTY = ''fffffff800000000''"
definition MINIMUM_RECEIVE_NETWORK_DIFFICULTY :: string where
  "MINIMUM_RECEIVE_NETWORK_DIFFICULTY = ''fffffe0000000000''"

section \<open>Library primitives the notebook calls\<close>

subsection \<open>Positional notation\<close>

fun index_of :: "'a \<Rightarrow> 'a list \<Rightarrow> nat option" where
  "index_of c [] = None"
| "index_of c (x # xs) = (if c = x then Some 0 else map_option Suc (index_of c xs))"

text \<open>The \<open>n\<close> low-order digits of \<open>v\<close> in the given base, most significant first.\<close>

fun digits_be :: "int \<Rightarrow> nat \<Rightarrow> int \<Rightarrow> int list" where
  "digits_be base 0 v = []"
| "digits_be base (Suc n) v = digits_be base n (v div base) @ [v mod base]"

definition from_digits_be :: "int \<Rightarrow> int list \<Rightarrow> int" where
  "from_digits_be base ds = foldl (\<lambda>a d. a * base + d) 0 ds"

text \<open>\<open>int.to_bytes(n, byteorder='big')\<close>: unsigned, raises \<open>OverflowError\<close> on a negative
  value and on one that needs more than \<open>n\<close> bytes.\<close>

definition to_bytes_big :: "nat \<Rightarrow> int \<Rightarrow> error + bytes" where
  "to_bytes_big n x =
    (if x < 0 \<or> 256 ^ n \<le> x then Inl OverflowError
     else Inr (map word_of_int (digits_be 256 n x)))"

subsection \<open>\<open>binascii\<close> and \<open>str\<close>\<close>

definition hex_digits :: string where
  "hex_digits = ''0123456789abcdef''"

definition hex_value :: "char \<Rightarrow> int option" where
  "hex_value c =
    (case index_of c hex_digits of
       Some i \<Rightarrow> Some (int i)
     | None \<Rightarrow> map_option (\<lambda>i. int i + 10) (index_of c ''ABCDEF''))"

text \<open>\<open>binascii.hexlify\<close>: two lower-case digits per byte.\<close>

definition hexlify :: "bytes \<Rightarrow> string" where
  "hexlify bs =
    concat (map (\<lambda>b. [hex_digits ! nat (uint b div 16), hex_digits ! nat (uint b mod 16)]) bs)"

text \<open>\<open>binascii.unhexlify\<close>: digits of either case, an even number of them.\<close>

fun unhexlify :: "string \<Rightarrow> error + bytes" where
  "unhexlify [] = Inr []"
| "unhexlify [c] = Inl BinasciiError"
| "unhexlify (c # d # cs) =
    (case (hex_value c, hex_value d) of
       (Some h, Some l) \<Rightarrow>
         (case unhexlify cs of
            Inl e \<Rightarrow> Inl e
          | Inr bs \<Rightarrow> Inr (word_of_int (16 * h + l) # bs))
     | _ \<Rightarrow> Inl BinasciiError)"

text \<open>\<open>str.upper\<close> on ASCII text.\<close>

definition upper_char :: "char \<Rightarrow> char" where
  "upper_char c =
    (case index_of c ''abcdefghijklmnopqrstuvwxyz'' of
       Some i \<Rightarrow> ''ABCDEFGHIJKLMNOPQRSTUVWXYZ'' ! i
     | None \<Rightarrow> c)"

definition upper :: "string \<Rightarrow> string" where
  "upper s = map upper_char s"

text \<open>Python compares strings lexicographically by code point; \<open>str_ge a b\<close> is \<open>a >= b\<close>.\<close>

fun str_le :: "string \<Rightarrow> string \<Rightarrow> bool" where
  "str_le [] ys = True"
| "str_le (x # xs) [] = False"
| "str_le (x # xs) (y # ys) =
    ((of_char x :: int) < of_char y \<or> (x = y \<and> str_le xs ys))"

definition str_ge :: "string \<Rightarrow> string \<Rightarrow> bool" where
  "str_ge a b = str_le b a"

subsection \<open>\<open>re.match\<close> on the two patterns of the notebook\<close>

text \<open>Both patterns are anchored, \<open>^ ... $\<close>, and neither character class holds a newline.
  Without \<open>re.MULTILINE\<close>, \<open>$\<close> matches at the end of the text and also just before a
  newline that ends the text.\<close>

definition dollar_anchored :: "(string \<Rightarrow> bool) \<Rightarrow> string \<Rightarrow> bool" where
  "dollar_anchored shape s =
    (shape s \<or> (s \<noteq> [] \<and> last s = CHR 0x0A \<and> shape (butlast s)))"

definition nbase32_alphabet :: string where
  "nbase32_alphabet = ''13456789abcdefghijkmnopqrstuwxyz''"

text \<open>\<open>(nano|xrb)_[13]{1}[13456789abcdefghijkmnopqrstuwxyz]{59}\<close>\<close>

definition address_shape :: "string \<Rightarrow> bool" where
  "address_shape s =
    (case (if take 5 s = ''nano_'' then Some (drop 5 s)
           else if take 4 s = ''xrb_'' then Some (drop 4 s) else None) of
       None \<Rightarrow> False
     | Some body \<Rightarrow>
         length body = 60 \<and> hd body \<in> set ''13'' \<and>
         list_all (\<lambda>c. c \<in> set nbase32_alphabet) (tl body))"

text \<open>\<open>re.match(NANO_ADDRESS_REGEX, s)\<close>\<close>

definition match_nano_address :: "string \<Rightarrow> bool" where
  "match_nano_address s = dollar_anchored address_shape s"

text \<open>\<open>re.match('^[a-fA-F0-9]+$', s)\<close>\<close>

definition hex_shape :: "string \<Rightarrow> bool" where
  "hex_shape s = (s \<noteq> [] \<and> list_all (\<lambda>c. hex_value c \<noteq> None) s)"

definition match_hex :: "string \<Rightarrow> bool" where
  "match_hex s = dollar_anchored hex_shape s"

subsection \<open>\<open>hashlib.blake2b\<close>\<close>

text \<open>BLAKE2b without key, salt or personalisation (RFC 7693), as \<open>hashlib.blake2b\<close>
  computes it.  The state words are 64-bit values held in \<open>int\<close>, every addition reduced
  modulo \<open>2 ^ 64\<close>.\<close>

definition add64 :: "int \<Rightarrow> int \<Rightarrow> int" where
  "add64 a b = (a + b) mod 18446744073709551616"

definition rotr64 :: "nat \<Rightarrow> int \<Rightarrow> int" where
  "rotr64 n x = x div 2 ^ n + (x mod 2 ^ n) * 2 ^ (64 - n)"

definition blake2b_IV :: "int list" where
  "blake2b_IV =
    [0x6a09e667f3bcc908, 0xbb67ae8584caa73b, 0x3c6ef372fe94f82b, 0xa54ff53a5f1d36f1,
     0x510e527fade682d1, 0x9b05688c2b3e6c1f, 0x1f83d9abfb41bd6b, 0x5be0cd19137e2179]"

definition blake2b_SIGMA :: "nat list list" where
  "blake2b_SIGMA =
    [[0, 1, 2, 3, 4, 5, 6, 7, 8, 9, 10, 11, 12, 13, 14, 15],
     [14, 10, 4, 8, 9, 15, 13, 6, 1, 12, 0, 2, 11, 7, 5, 3],
     [11, 8, 12, 0, 5, 2, 15, 13, 10, 14, 3, 6, 7, 1, 9, 4],
     [7, 9, 3, 1, 13, 12, 11, 14, 2, 6, 5, 10, 4, 0, 15, 8],
     [9, 0, 5, 7, 2, 4, 10, 15, 14, 1, 11, 12, 6, 8, 3, 13],
     [2, 12, 6, 10, 0, 11, 8, 3, 4, 13, 7, 5, 15, 14, 1, 9],
     [12, 5, 1, 15, 14, 13, 4, 10, 0, 7, 6, 3, 9, 2, 8, 11],
     [13, 11, 7, 14, 12, 1, 3, 9, 5, 0, 15, 4, 8, 6, 2, 10],
     [6, 15, 14, 9, 11, 3, 0, 8, 12, 2, 13, 7, 1, 4, 10, 5],
     [10, 2, 8, 4, 7, 6, 1, 5, 15, 11, 9, 14, 3, 12, 13, 0]]"

definition blake2b_G ::
  "int list \<Rightarrow> nat \<Rightarrow> nat \<Rightarrow> nat \<Rightarrow> nat \<Rightarrow> int \<Rightarrow> int \<Rightarrow> int list" where
  "blake2b_G v a b c d x y =
    (let va = add64 (add64 (v ! a) (v ! b)) x;
         vd = rotr64 32 ((v ! d) XOR va);
         vc = add64 (v ! c) vd;
         vb = rotr64 24 ((v ! b) XOR vc);
         va = add64 (add64 va vb) y;
         vd = rotr64 16 (vd XOR va);
         vc = add64 vc vd;
         vb = rotr64 63 (vb XOR vc)
     in v[a := va, b := vb, c := vc, d := vd])"

definition blake2b_round :: "int list \<Rightarrow> int list \<Rightarrow> nat \<Rightarrow> int list" where
  "blake2b_round m v i =
    (let s = blake2b_SIGMA ! (i mod 10);
         v = blake2b_G v 0 4 8 12 (m ! (s ! 0)) (m ! (s ! 1));
         v = blake2b_G v 1 5 9 13 (m ! (s ! 2)) (m ! (s ! 3));
         v = blake2b_G v 2 6 10 14 (m ! (s ! 4)) (m ! (s ! 5));
         v = blake2b_G v 3 7 11 15 (m ! (s ! 6)) (m ! (s ! 7));
         v = blake2b_G v 0 5 10 15 (m ! (s ! 8)) (m ! (s ! 9));
         v = blake2b_G v 1 6 11 12 (m ! (s ! 10)) (m ! (s ! 11));
         v = blake2b_G v 2 7 8 13 (m ! (s ! 12)) (m ! (s ! 13));
         v = blake2b_G v 3 4 9 14 (m ! (s ! 14)) (m ! (s ! 15))
     in v)"

fun le_word :: "bytes \<Rightarrow> int" where
  "le_word [] = 0"
| "le_word (b # bs) = uint b + 256 * le_word bs"

fun le_words :: "nat \<Rightarrow> bytes \<Rightarrow> int list" where
  "le_words 0 bs = []"
| "le_words (Suc n) bs = le_word (take 8 bs) # le_words n (drop 8 bs)"

fun le_bytes :: "nat \<Rightarrow> int \<Rightarrow> bytes" where
  "le_bytes 0 x = []"
| "le_bytes (Suc n) x = word_of_int x # le_bytes n (x div 256)"

definition blake2b_compress :: "int list \<Rightarrow> bytes \<Rightarrow> int \<Rightarrow> bool \<Rightarrow> int list" where
  "blake2b_compress h blk t final =
    (let m = le_words 16 blk;
         v = h @ blake2b_IV;
         v = v[12 := (v ! 12) XOR (t mod 18446744073709551616)];
         v = v[13 := (v ! 13) XOR (t div 18446744073709551616)];
         v = (if final then v[14 := (v ! 14) XOR 18446744073709551615] else v);
         v = foldl (blake2b_round m) v [0..<12]
     in map (\<lambda>i. (h ! i) XOR (v ! i) XOR (v ! (i + 8))) [0..<8])"

function blake2b_absorb :: "int list \<Rightarrow> int \<Rightarrow> bytes \<Rightarrow> int list" where
  "blake2b_absorb h t bs =
    (if length bs \<le> 128
     then blake2b_compress h (bs @ replicate (128 - length bs) 0) (t + int (length bs)) True
     else blake2b_absorb (blake2b_compress h (take 128 bs) (t + 128) False) (t + 128)
            (drop 128 bs))"
  by pat_completeness auto
termination
  by (relation "measure (\<lambda>(h, t, bs). length bs)") auto

declare blake2b_absorb.simps [simp del]

text \<open>\<open>blake2b(data, digest_size=nn).digest()\<close>, for \<open>1 \<le> nn \<le> 64\<close>; the notebook asks for
  5, 8 and 32 bytes.  \<open>update\<close> called twice hashes the concatenation.  The digests that
  the properties below state for concrete inputs are the ones \<open>hashlib\<close> returns.\<close>

definition blake2b :: "nat \<Rightarrow> bytes \<Rightarrow> bytes" where
  "blake2b nn bs =
    (let h = blake2b_IV[0 := (blake2b_IV ! 0) XOR 0x01010000 XOR int nn]
     in take nn (concat (map (le_bytes 8) (blake2b_absorb h 0 bs))))"

subsection \<open>\<open>nanolib\<close>: the base-32 codec\<close>

text \<open>Modelled from the spec: \<open>nl.bytes_to_nbase32\<close> and \<open>nl.nbase32_to_bytes\<close> belong to
  the \<open>nanolib\<close> package, which the notebook imports and whose source is not part of the
  repository.  Section 4.2 of the specification describes them: the bytes are read as one
  big-endian number and written with the 32-character alphabet, 5 bits per character, most
  significant first, zero bits padded in front up to a multiple of 5 (4 of them for 256
  bits); decoding reads the characters back to that number and drops the padding bits in
  front.\<close>

definition bytes_to_nbase32 :: "bytes \<Rightarrow> string" where
  "bytes_to_nbase32 bs =
    map (\<lambda>d. nbase32_alphabet ! nat d)
      (digits_be 32 ((8 * length bs + 4) div 5) (from_digits_be 256 (map uint bs)))"

definition nbase32_value :: "char \<Rightarrow> int" where
  "nbase32_value c = (case index_of c nbase32_alphabet of Some i \<Rightarrow> int i | None \<Rightarrow> 0)"

definition nbase32_to_bytes :: "string \<Rightarrow> error + bytes" where
  "nbase32_to_bytes s =
    (if list_all (\<lambda>c. c \<in> set nbase32_alphabet) s
     then Inr (map word_of_int
            (digits_be 256 ((5 * length s) div 8) (from_digits_be 32 (map nbase32_value s))))
     else Inl ValueError)"

subsection \<open>\<open>int(str)\<close>\<close>

text \<open>\<open>int(s)\<close> in base 10, on a text of code points below 256.  White space around the
  number is dropped: the space and the controls 9 to 13, and, being Unicode spaces, the
  code points \<open>0x85\<close> and \<open>0xA0\<close>.  One sign may precede the digits, and single underscores
  may stand between digits.  CPython refuses a number of more than 4300 digits (leading
  zeros counted, underscores not) since the releases that have
  \<open>sys.set_int_max_str_digits\<close>.\<close>

definition is_space :: "char \<Rightarrow> bool" where
  "is_space c =
    (c \<in> set [CHR 0x09, CHR 0x0A, CHR 0x0B, CHR 0x0C, CHR 0x0D, CHR '' '',
              CHR 0x85, CHR 0xA0])"

definition int_max_str_digits :: int where
  "int_max_str_digits = 4300"

definition decimal_value :: "char \<Rightarrow> int option" where
  "decimal_value c = map_option int (index_of c ''0123456789'')"

fun decimal_digits :: "int \<Rightarrow> string \<Rightarrow> int option" where
  "decimal_digits acc [] = None"
| "decimal_digits acc [c] = map_option (\<lambda>d. acc * 10 + d) (decimal_value c)"
| "decimal_digits acc (c # d # cs) =
    (case decimal_value c of
       None \<Rightarrow> None
     | Some v \<Rightarrow>
         if d = CHR ''_'' then decimal_digits (acc * 10 + v) cs
         else decimal_digits (acc * 10 + v) (d # cs))"

definition py_int :: "string \<Rightarrow> error + int" where
  "py_int s =
    (let t = rev (dropWhile is_space (rev (dropWhile is_space s)));
         (neg, ds) = (case t of
                        [] \<Rightarrow> (False, [])
                      | c # cs \<Rightarrow> if c = CHR ''-'' then (True, cs)
                                else if c = CHR ''+'' then (False, cs) else (False, t))
     in if int_max_str_digits < int (length (filter (\<lambda>c. c \<noteq> CHR ''_'') ds))
        then Inl ValueError
        else case decimal_digits 0 ds of
               None \<Rightarrow> Inl ValueError
             | Some n \<Rightarrow> Inr (if neg then - n else n))"

section \<open>The notebook's functions\<close>

subsection \<open>Key derivation\<close>

text \<open>\<open>verifying_key\<close> stands for \<open>ed25519_blake2b.SigningKey(k).get_verifying_key().to_bytes()\<close>,
  the signature library's map from a private key to its public key.\<close>

definition generate_public_private_key_pairs ::
  "(bytes \<Rightarrow> bytes) \<Rightarrow> string \<Rightarrow> int \<Rightarrow> error + string \<times> string" where
  "generate_public_private_key_pairs verifying_key seed index =
    (if index > 2 ^ 32 - 1 then Inl IndexTooLarge
     else case to_bytes_big 8 index of
       Inl e \<Rightarrow> Inl e
     | Inr b \<Rightarrow>
         let index_in_bytes = take (length b - PRIVATE_KEY_INDEX_SIZE_BYTES) b
         in case unhexlify seed of
              Inl e \<Rightarrow> Inl e
            | Inr seed_bytes \<Rightarrow>
                let private_key = blake2b KEYS_SIZE_BYTES (seed_bytes @ index_in_bytes)
                in Inr (upper (hexlify private_key),
                        upper (hexlify (verifying_key private_key))))"

subsection \<open>Addresses\<close>

definition derive_address_from_public_key :: "string \<Rightarrow> error + string" where
  "derive_address_from_public_key public_key =
    (case unhexlify public_key of
       Inl e \<Rightarrow> Inl e
     | Inr key \<Rightarrow>
         let base64_key = bytes_to_nbase32 key;
             checksum = rev (blake2b CHECKSUM_DIGEST_SIZE_BYTES key);
             base64_checksum = bytes_to_nbase32 checksum
         in Inr (''nano_'' @ base64_key @ base64_checksum))"

definition derive_public_key_from_address :: "string \<Rightarrow> error + string" where
  "derive_public_key_from_address address =
    (if \<not> match_nano_address address then Inl InvalidNanoAddress
     else
       let address_part = drop 5 (take (length address - 8) address);
           checksum = drop (length address - 8) address
       in case nbase32_to_bytes address_part of
            Inl e \<Rightarrow> Inl e
          | Inr public_key \<Rightarrow>
              let checksum_bits = rev (blake2b 5 public_key);
                  computed_checksum = bytes_to_nbase32 checksum_bits
              in if checksum \<noteq> computed_checksum then Inl InvalidChecksum
                 else Inr (upper (hexlify public_key)))"

subsection \<open>Block hashing\<close>

definition STATE_BLOCK_HEADER_BYTES :: bytes where
  "STATE_BLOCK_HEADER_BYTES =
    (case unhexlify ''0000000000000000000000000000000000000000000000000000000000000006'' of
       Inr b \<Rightarrow> b
     | Inl e \<Rightarrow> [])"

definition process_link_data :: "block \<Rightarrow> error + string" where
  "process_link_data b =
    (if match_nano_address (link b) then derive_public_key_from_address (link b)
     else if match_hex (link b) then Inr (link b)
     else if length (remdups (link b)) = 1 \<and> CHR ''0'' \<in> set (link b) then Inr (link b)
     else Inl UnknownBlockType)"

definition create_block_hash :: "block \<Rightarrow> error + bytes" where
  "create_block_hash b =
    (case derive_public_key_from_address (account b) of
       Inl e \<Rightarrow> Inl e
     | Inr public_key \<Rightarrow>
    (case derive_public_key_from_address (representative b) of
       Inl e \<Rightarrow> Inl e
     | Inr representative_key \<Rightarrow>
    (case unhexlify public_key of
       Inl e \<Rightarrow> Inl e
     | Inr account_bytes \<Rightarrow>
    (case unhexlify (previous b) of
       Inl e \<Rightarrow> Inl e
     | Inr previous_bytes \<Rightarrow>
    (case unhexlify representative_key of
       Inl e \<Rightarrow> Inl e
     | Inr representative_bytes \<Rightarrow>
    (case py_int (balance b) of
       Inl e \<Rightarrow> Inl e
     | Inr n \<Rightarrow>
    (case to_bytes_big BALANCE_SIZE_BYTES n of
       Inl e \<Rightarrow> Inl e
     | Inr balance_bytes \<Rightarrow>
    (case process_link_data b of
       Inl e \<Rightarrow> Inl e
     | Inr link_hex \<Rightarrow>
    (case unhexlify link_hex of
       Inl e \<Rightarrow> Inl e
     | Inr link_bytes \<Rightarrow>
         Inr (blake2b SIGNATURE_DIGEST_SIZE_BYTES
                (concat [STATE_BLOCK_HEADER_BYTES, account_bytes, previous_bytes,
                         representative_bytes, balance_bytes, link_bytes])))))))))))"

subsection \<open>Proof of work\<close>

definition get_block_hash :: "block \<Rightarrow> error + string" where
  "get_block_hash b =
    (if length (remdups (previous b)) = 1 \<and> CHR ''0'' \<in> set (previous b)
     then derive_public_key_from_address (account b)
     else Inr (previous b))"

text \<open>One pass of the body of the search loop: the digest of a candidate, reversed and
  written in hexadecimal.\<close>

definition work_of_candidate :: "bytes \<Rightarrow> bytes \<Rightarrow> string" where
  "work_of_candidate candidate block_hash =
    hexlify (rev (blake2b WORK_SIZE_BYTES (candidate @ block_hash)))"

text \<open>The loop of \<open>compute_work\<close>.  The numbers that \<open>random.randint(0, MAX_NONCE_SIZE)\<close>
  returns before the clock passes \<open>timeout_seconds\<close> are the list \<open>draws\<close>, 64-bit values
  by the bounds of the call (so \<open>to_bytes(8)\<close> cannot raise); the loop leaves at the first
  candidate that reaches the difficulty, or with \<open>nonce = None\<close> when the time is up.\<close>

fun work_loop :: "bytes \<Rightarrow> string \<Rightarrow> 64 word list \<Rightarrow> string option" where
  "work_loop block_hash difficulty [] = None"
| "work_loop block_hash difficulty (r # draws) =
    (let candidate = rev (map word_of_int (digits_be 256 8 (uint r)));
         computed_work = work_of_candidate candidate block_hash
     in if str_ge computed_work difficulty
        then Some (hexlify (rev candidate))
        else work_loop block_hash difficulty draws)"

text \<open>\<open>compute_work\<close> returns the nonce, or \<open>None\<close> after printing that it timed out.\<close>

definition compute_work :: "block \<Rightarrow> string \<Rightarrow> 64 word list \<Rightarrow> error + string option" where
  "compute_work b difficulty draws =
    (case get_block_hash b of
       Inl e \<Rightarrow> Inl e
     | Inr h \<Rightarrow>
    (case unhexlify h of
       Inl e \<Rightarrow> Inl e
     | Inr block_hash \<Rightarrow>
         (case work_loop block_hash difficulty draws of
            None \<Rightarrow> Inr None
          | Some nonce \<Rightarrow> if nonce \<noteq> [] then Inr (Some nonce) else Inr None)))"

definition validate_work :: "block \<Rightarrow> string option \<Rightarrow> string \<Rightarrow> error + bool" where
  "validate_work b nonce difficulty =
    (case nonce of
       None \<Rightarrow> Inr False
     | Some n \<Rightarrow>
         if n = [] then Inr False
         else
    (case get_block_hash b of
       Inl e \<Rightarrow> Inl e
     | Inr h \<Rightarrow>
    (case unhexlify h of
       Inl e \<Rightarrow> Inl e
     | Inr block_hash \<Rightarrow>
    (case unhexlify n of
       Inl e \<Rightarrow> Inl e
     | Inr bin_nonce \<Rightarrow>
         let computed_hash = rev (blake2b WORK_SIZE_BYTES (rev bin_nonce @ block_hash));
             work_hex = hexlify computed_hash
         in Inr (str_ge work_hex difficulty)))))"

section \<open>Example inputs\<close>

text \<open>The two blocks that the tutorial cells of the notebook build, with the example values
  of their comments: the address of the doc strings as the account, the example block
  hashes, and the representative of the cells.\<close>

definition example_open_block :: block where
  "example_open_block =
    \<lparr>type_tag = ''state'',
     account = ''nano_16odwi933gpzmkgdcy9tt5zef5ka3jcfubc97fwypsokg7sji4mb9n6qtbme'',
     previous = replicate 64 (CHR ''0''),
     representative = ''nano_1wenanoqm7xbypou7x3nue1isaeddamjdnc3z99tekjbfezdbq8fmb659o7t'',
     balance = ''123000000000000000000000000'',
     link = ''785A65D2125806A9AFF251D60F39F1C80FD39FD1F125FACD7E6293FD33359B55'',
     signature = None,
     work = None\<rparr>"

definition example_send_block :: block where
  "example_send_block =
    \<lparr>type_tag = ''state'',
     account = ''nano_16odwi933gpzmkgdcy9tt5zef5ka3jcfubc97fwypsokg7sji4mb9n6qtbme'',
     previous = ''FF474514E2B7DED97A665C21210C273EFB6A6D4ED4A30EAAE761837D3FED25F3'',
     representative = ''nano_1wenanoqm7xbypou7x3nue1isaeddamjdnc3z99tekjbfezdbq8fmb659o7t'',
     balance = ''1'',
     link = ''nano_1wenanoqm7xbypou7x3nue1isaeddamjdnc3z99tekjbfezdbq8fmb659o7t'',
     signature = None,
     work = None\<rparr>"

section \<open>Vocabulary of the properties\<close>

text \<open>The number a byte string denotes when read big-endian (\<open>int.from_bytes(bs, 'big')\<close>),
  the number a hexadecimal text denotes (\<open>int(s, 16)\<close>), and the texts written with the
  lower-case digits only, as \<open>hexlify\<close> writes them and as the two difficulty constants of
  the notebook are.\<close>

definition big_endian_value :: "bytes \<Rightarrow> int" where
  "big_endian_value bs = from_digits_be 256 (map uint bs)"

definition hex_digit_number :: "char \<Rightarrow> int" where
  "hex_digit_number c = (case hex_value c of Some v \<Rightarrow> v | None \<Rightarrow> 0)"

definition hex_number :: "string \<Rightarrow> int" where
  "hex_number s = from_digits_be 16 (map hex_digit_number s)"

definition lower_hex :: "string \<Rightarrow> bool" where
  "lower_hex s = list_all (\<lambda>c. c \<in> set hex_digits) s"

text \<open>The work base as the amended claim C9 words it: the bytes of the public key that the
  account address decodes to when \<open>previous\<close> is a non-empty text of \<open>0\<close> characters, the
  bytes that \<open>previous\<close> encodes otherwise.\<close>

definition work_base :: "block \<Rightarrow> error + bytes" where
  "work_base b =
    (if previous b \<noteq> [] \<and> list_all (\<lambda>c. c = CHR ''0'') (previous b)
     then (case derive_public_key_from_address (account b) of
             Inl e \<Rightarrow> Inl e
           | Inr key_hex \<Rightarrow> unhexlify key_hex)
     else unhexlify (previous b))"

section \<open>Auxiliary facts\<close>

subsection \<open>Digits\<close>


lemma length_digits_be [simp]: "length (digits_be base n v) = n"
  by (induction n arbitrary: v) auto

lemma from_digits_be_snoc:
  "from_digits_be base (ds @ [d]) = from_digits_be base ds * base + d"
  by (simp add: from_digits_be_def)

lemma from_digits_be_Nil [simp]: "from_digits_be base [] = 0"
  by (simp add: from_digits_be_def)

lemma from_digits_be_digits_be:
  "0 < base \<Longrightarrow> from_digits_be base (digits_be base n v) = v mod base ^ n"
proof (induction n arbitrary: v)
  case 0
  then show ?case by simp
next
  case (Suc n)
  have "v mod (base * base ^ n) = base * (v div base mod base ^ n) + v mod base"
    using Suc.prems by (simp add: zmod_zmult2_eq)
  with Suc show ?case
    by (simp add: from_digits_be_snoc mult.commute)
qed

lemma digits_be_in_range:
  "0 < base \<Longrightarrow> d \<in> set (digits_be base n v) \<Longrightarrow> 0 \<le> d \<and> d < base"
  by (induction n arbitrary: v) auto

lemma digits_be_from_digits_be:
  "list_all (\<lambda>d. 0 \<le> d \<and> d < base) ds \<Longrightarrow>
   digits_be base (length ds) (from_digits_be base ds) = ds"
proof (induction ds rule: rev_induct)
  case Nil
  then show ?case by simp
next
  case (snoc d ds)
  then have d: "0 \<le> d" "d < base" and ds: "list_all (\<lambda>d. 0 \<le> d \<and> d < base) ds"
    by simp_all
  have "(from_digits_be base ds * base + d) div base = from_digits_be base ds"
    using d by simp
  moreover have "(from_digits_be base ds * base + d) mod base = d"
    using d by simp
  ultimately show ?case
    using snoc.IH [OF ds] by (simp add: from_digits_be_snoc)
qed

lemma from_digits_be_bounds:
  "list_all (\<lambda>d. 0 \<le> d \<and> d < base) ds \<Longrightarrow>
   0 \<le> from_digits_be base ds \<and> from_digits_be base ds < base ^ length ds"
proof (induction ds rule: rev_induct)
  case Nil
  then show ?case by simp
next
  case (snoc d ds)
  then have d: "0 \<le> d" "d < base" and ds: "list_all (\<lambda>d. 0 \<le> d \<and> d < base) ds"
    by simp_all
  from snoc.IH [OF ds] have lo: "0 \<le> from_digits_be base ds"
    and hi: "from_digits_be base ds + 1 \<le> base ^ length ds" by simp_all
  have b: "0 < base" using d by simp
  have "from_digits_be base ds * base + d < (from_digits_be base ds + 1) * base"
    using d by (simp add: algebra_simps)
  also have "\<dots> \<le> base ^ length ds * base"
    using hi b by (simp add: mult_right_mono)
  finally have "from_digits_be base ds * base + d < base * base ^ length ds"
    by (simp add: mult.commute)
  then show ?case
    using lo d b by (simp add: from_digits_be_snoc)
qed

lemma list_all_uint_byte: "list_all (\<lambda>d. 0 \<le> d \<and> d < 256) (map uint (bs :: bytes))"
proof -
  have "uint b < 256" for b :: byte
    using uint_bounded [of b] by simp
  then show ?thesis by (simp add: list_all_iff)
qed

lemma bytes_of_digits_of_bytes:
  "map word_of_int (digits_be 256 (length bs) (from_digits_be 256 (map uint bs))) = (bs :: bytes)"
proof -
  have "digits_be 256 (length (map uint bs)) (from_digits_be 256 (map uint bs)) = map uint bs"
    by (rule digits_be_from_digits_be) (rule list_all_uint_byte)
  then show ?thesis by (simp add: map_idI)
qed


subsection \<open>Hexadecimal text\<close>

lemma hex_value_hex_digits:
  assumes "i < 16"
  shows "hex_value (hex_digits ! i) = Some (int i)"
    and "hex_value (upper_char (hex_digits ! i)) = Some (int i)"
proof -
  have "list_all (\<lambda>i. hex_value (hex_digits ! i) = Some (int i)) [0..<16]"
    by code_simp
  then show "hex_value (hex_digits ! i) = Some (int i)"
    using assms by (simp add: list_all_iff)
  have "list_all (\<lambda>i. hex_value (upper_char (hex_digits ! i)) = Some (int i)) [0..<16]"
    by code_simp
  then show "hex_value (upper_char (hex_digits ! i)) = Some (int i)"
    using assms by (simp add: list_all_iff)
qed

lemma byte_nibbles:
  fixes b :: byte
  shows "nat (uint b div 16) < 16" and "nat (uint b mod 16) < 16"
    and "int (nat (uint b div 16)) = uint b div 16"
    and "int (nat (uint b mod 16)) = uint b mod 16"
proof -
  have "uint b < 256" using uint_bounded [of b] by simp
  moreover have "0 \<le> uint b" by simp
  ultimately show "nat (uint b div 16) < 16" and "nat (uint b mod 16) < 16"
    and "int (nat (uint b div 16)) = uint b div 16"
    and "int (nat (uint b mod 16)) = uint b mod 16"
    by simp_all
qed

lemma hexlify_Nil [simp]: "hexlify [] = []"
  by (simp add: hexlify_def)

lemma hexlify_Cons:
  "hexlify (b # bs) =
    hex_digits ! nat (uint b div 16) # hex_digits ! nat (uint b mod 16) # hexlify bs"
  by (simp add: hexlify_def)

lemma length_hexlify [simp]: "length (hexlify bs) = 2 * length bs"
  by (induction bs) (simp_all add: hexlify_Cons)

lemma hexlify_eq_Nil [simp]: "hexlify bs = [] \<longleftrightarrow> bs = []"
  by (cases bs) (simp_all add: hexlify_Cons)

lemma length_upper [simp]: "length (upper s) = length s"
  by (simp add: upper_def)

lemma unhexlify_pair:
  "hex_value c = Some h \<Longrightarrow> hex_value d = Some l \<Longrightarrow> unhexlify cs = Inr bs \<Longrightarrow>
   unhexlify (c # d # cs) = Inr (word_of_int (16 * h + l) # bs)"
  by simp

lemma byte_of_nibbles: "word_of_int (16 * (uint b div 16) + uint b mod 16) = (b :: byte)"
  by simp

lemma hex_value_nibbles:
  fixes b :: byte
  shows "hex_value (hex_digits ! nat (uint b div 16)) = Some (uint b div 16)"
    and "hex_value (hex_digits ! nat (uint b mod 16)) = Some (uint b mod 16)"
    and "hex_value (upper_char (hex_digits ! nat (uint b div 16))) = Some (uint b div 16)"
    and "hex_value (upper_char (hex_digits ! nat (uint b mod 16))) = Some (uint b mod 16)"
  using hex_value_hex_digits [OF byte_nibbles(1) [of b]]
    hex_value_hex_digits [OF byte_nibbles(2) [of b]]
  by (simp_all only: byte_nibbles)

lemma unhexlify_hexlify [simp]: "unhexlify (hexlify bs) = Inr bs"
proof (induction bs)
  case Nil
  then show ?case by simp
next
  case (Cons b bs)
  have "unhexlify (hexlify (b # bs)) =
      Inr (word_of_int (16 * (uint b div 16) + uint b mod 16) # bs)"
    unfolding hexlify_Cons
    by (rule unhexlify_pair [OF hex_value_nibbles(1) hex_value_nibbles(2) Cons.IH])
  then show ?case
    by (simp only: byte_of_nibbles)
qed

lemma upper_Cons: "upper (c # cs) = upper_char c # upper cs"
  by (simp add: upper_def)

lemma unhexlify_upper_hexlify [simp]: "unhexlify (upper (hexlify bs)) = Inr bs"
proof (induction bs)
  case Nil
  then show ?case by (simp add: upper_def)
next
  case (Cons b bs)
  have "unhexlify (upper (hexlify (b # bs))) =
      Inr (word_of_int (16 * (uint b div 16) + uint b mod 16) # bs)"
    unfolding hexlify_Cons upper_Cons
    by (rule unhexlify_pair [OF hex_value_nibbles(3) hex_value_nibbles(4) Cons.IH])
  then show ?case
    by (simp only: byte_of_nibbles)
qed

subsection \<open>Digest sizes\<close>

lemma length_le_bytes [simp]: "length (le_bytes n x) = n"
  by (induction n arbitrary: x) auto

lemma length_blake2b_compress [simp]: "length (blake2b_compress h blk t final) = 8"
  unfolding blake2b_compress_def Let_def by (simp only: length_map length_upt)

lemma length_blake2b_absorb [simp]: "length (blake2b_absorb h t bs) = 8"
  by (induction h t bs rule: blake2b_absorb.induct) (subst blake2b_absorb.simps, simp)

lemma length_concat_le_bytes: "length (concat (map (le_bytes 8) xs)) = 8 * length xs"
  by (induction xs) auto

lemma length_blake2b: "nn \<le> 64 \<Longrightarrow> length (blake2b nn bs) = nn"
  by (simp add: blake2b_def Let_def length_concat_le_bytes)

subsection \<open>The base-32 codec\<close>

lemma nbase32_alphabet_nth:
  assumes "i < 32"
  shows "nbase32_value (nbase32_alphabet ! i) = int i"
    and "nbase32_alphabet ! i \<in> set nbase32_alphabet"
proof -
  have "list_all (\<lambda>i. nbase32_value (nbase32_alphabet ! i) = int i) [0..<32]"
    by code_simp
  then show "nbase32_value (nbase32_alphabet ! i) = int i"
    using assms by (simp add: list_all_iff)
  have "length nbase32_alphabet = 32"
    by (simp add: nbase32_alphabet_def)
  then show "nbase32_alphabet ! i \<in> set nbase32_alphabet"
    using assms by simp
qed

lemma length_bytes_to_nbase32 [simp]:
  "length (bytes_to_nbase32 bs) = (8 * length bs + 4) div 5"
  by (simp add: bytes_to_nbase32_def)

lemma bytes_to_nbase32_alphabet:
  "list_all (\<lambda>c. c \<in> set nbase32_alphabet) (bytes_to_nbase32 bs)"
proof -
  have "nbase32_alphabet ! nat d \<in> set nbase32_alphabet"
    if "d \<in> set (digits_be 32 n v)" for d n v
  proof -
    from digits_be_in_range [OF _ that] have "0 \<le> d" "d < 32" by simp_all
    then have "nat d < 32" by simp
    then show ?thesis by (rule nbase32_alphabet_nth)
  qed
  then show ?thesis
    by (auto simp: bytes_to_nbase32_def list_all_iff)
qed

lemma nbase32_values_bytes_to_nbase32:
  "map nbase32_value (bytes_to_nbase32 bs) =
     digits_be 32 ((8 * length bs + 4) div 5) (from_digits_be 256 (map uint bs))"
proof -
  have "nbase32_value (nbase32_alphabet ! nat d) = d"
    if "d \<in> set (digits_be 32 n v)" for d n v
  proof -
    from digits_be_in_range [OF _ that] have d: "0 \<le> d" "d < 32" by simp_all
    then have "nat d < 32" by simp
    then have "nbase32_value (nbase32_alphabet ! nat d) = int (nat d)"
      by (rule nbase32_alphabet_nth)
    with d show ?thesis by simp
  qed
  then show ?thesis
    by (simp add: bytes_to_nbase32_def map_idI)
qed

lemma bytes_value_bounds:
  "0 \<le> from_digits_be 256 (map uint (bs :: bytes))"
  "from_digits_be 256 (map uint (bs :: bytes)) < 2 ^ (8 * length bs)"
proof -
  have "0 \<le> from_digits_be 256 (map uint bs) \<and>
        from_digits_be 256 (map uint bs) < 256 ^ length (map uint bs)"
    by (rule from_digits_be_bounds) (rule list_all_uint_byte)
  moreover have "(256 :: int) ^ length bs = 2 ^ (8 * length bs)"
    by (simp add: power_mult)
  ultimately show "0 \<le> from_digits_be 256 (map uint bs)"
    and "from_digits_be 256 (map uint bs) < 2 ^ (8 * length bs)"
    by simp_all
qed

lemma nbase32_to_bytes_bytes_to_nbase32:
  "nbase32_to_bytes (bytes_to_nbase32 bs) = Inr bs"
proof -
  let ?n = "length bs"
  let ?m = "(8 * ?n + 4) div 5"
  let ?V = "from_digits_be 256 (map uint bs)"
  have "(2 :: int) ^ (8 * ?n) \<le> 2 ^ (5 * ?m)"
    by (rule power_increasing) simp_all
  with bytes_value_bounds [of bs] have "0 \<le> ?V" "?V < 32 ^ ?m"
    by (simp_all add: power_mult)
  then have "from_digits_be 32 (digits_be 32 ?m ?V) = ?V"
    by (simp add: from_digits_be_digits_be)
  moreover have "(5 * ?m) div 8 = ?n"
    by arith
  ultimately show ?thesis
    by (simp add: nbase32_to_bytes_def bytes_to_nbase32_alphabet
        nbase32_values_bytes_to_nbase32 bytes_of_digits_of_bytes)
qed


subsection \<open>The shape of an encoded address\<close>

lemma digits_be_Suc_front:
  "0 < base \<Longrightarrow>
   digits_be base (Suc n) v = (v div base ^ n) mod base # digits_be base n v"
proof (induction n arbitrary: v)
  case 0
  then show ?case by simp
next
  case (Suc n)
  have "v div base div base ^ n = v div (base * base ^ n)"
    using Suc.prems by (simp add: zdiv_zmult2_eq)
  moreover have "digits_be base (Suc (Suc n)) v = digits_be base (Suc n) (v div base) @ [v mod base]"
    by simp
  ultimately show ?case
    using Suc.IH [OF Suc.prems, of "v div base"] by simp
qed

lemma div_below_double:
  fixes v m :: int
  assumes "0 \<le> v" and "v < 2 * m"
  shows "v div m = 0 \<or> v div m = 1"
proof (cases "v < m")
  case True
  with assms show ?thesis by simp
next
  case False
  then have "0 \<le> v - m" "v - m < m"
    using assms by simp_all
  then have "(v - m) div m = 0"
    by simp
  moreover have "v div m = (v - m) div m + 1"
    using False assms by (metis diff_add_cancel div_add_self2 not_less_iff_gr_or_eq order_less_le_trans zero_less_mult_iff zero_less_numeral)
  ultimately show ?thesis by simp
qed

lemma hd_bytes_to_nbase32_key:
  assumes "length k = 32"
  shows "hd (bytes_to_nbase32 k) \<in> set ''13''"
proof -
  let ?V = "from_digits_be 256 (map uint k)"
  from bytes_value_bounds [of k] assms have V: "0 \<le> ?V" "?V < 2 ^ 256"
    by simp_all
  have "(32 :: int) ^ 51 = 2 ^ 255"
    by simp
  moreover have "?V div 2 ^ 255 = 0 \<or> ?V div 2 ^ 255 = 1"
    using V by (intro div_below_double) simp_all
  ultimately have d: "(?V div 32 ^ 51) mod 32 = 0 \<or> (?V div 32 ^ 51) mod 32 = 1"
    by auto
  have "bytes_to_nbase32 k =
      map (\<lambda>d. nbase32_alphabet ! nat d) (digits_be 32 (Suc 51) ?V)"
    using assms by (simp add: bytes_to_nbase32_def)
  then have "hd (bytes_to_nbase32 k) = nbase32_alphabet ! nat ((?V div 32 ^ 51) mod 32)"
    by (simp only: digits_be_Suc_front [of 32] list.map list.sel)
  with d show ?thesis
    by (auto simp: nbase32_alphabet_def)
qed

lemma address_shape_nano:
  assumes "length k = 32" and "length c = 5"
  shows "address_shape (''nano_'' @ bytes_to_nbase32 k @ bytes_to_nbase32 c)"
proof -
  let ?body = "bytes_to_nbase32 k @ bytes_to_nbase32 c"
  have len: "length (bytes_to_nbase32 k) = 52" "length (bytes_to_nbase32 c) = 8"
    using assms by simp_all
  then have ne: "bytes_to_nbase32 k \<noteq> []"
    by (metis list.size(3) zero_neq_numeral)
  have "list_all (\<lambda>c. c \<in> set nbase32_alphabet) ?body"
    by (simp add: bytes_to_nbase32_alphabet)
  then have "list_all (\<lambda>c. c \<in> set nbase32_alphabet) (tl ?body)"
    by (cases ?body) simp_all
  moreover have "hd ?body \<in> set ''13''"
    using hd_bytes_to_nbase32_key [OF assms(1)] ne by simp
  moreover have "length ?body = 60"
    using len by simp
  ultimately show ?thesis
    by (simp add: address_shape_def)
qed

subsection \<open>Text order and numeric order of hexadecimal text\<close>

lemma from_digits_be_Cons:
  "from_digits_be base (d # ds) = d * base ^ length ds + from_digits_be base ds"
proof (induction ds rule: rev_induct)
  case Nil
  then show ?case by (simp add: from_digits_be_def)
next
  case (snoc e ds)
  have "from_digits_be base (d # ds @ [e]) = from_digits_be base ((d # ds) @ [e])"
    by simp
  also have "\<dots> = from_digits_be base (d # ds) * base + e"
    by (rule from_digits_be_snoc)
  finally show ?case
    using snoc by (simp add: from_digits_be_snoc algebra_simps)
qed

lemma leading_digit_order:
  fixes x y a b p :: int
  assumes "0 \<le> a" "a < p" "0 \<le> b" "b < p"
  shows "(x * p + a \<le> y * p + b) = (x < y \<or> (x = y \<and> a \<le> b))"
proof (cases x y rule: linorder_cases)
  case less
  then have "(x + 1) * p \<le> y * p"
    using assms by (intro mult_right_mono) simp_all
  then have "x * p + a \<le> y * p + b"
    using assms by (simp add: algebra_simps)
  with less show ?thesis by simp
next
  case equal
  then show ?thesis by simp
next
  case greater
  then have "(y + 1) * p \<le> x * p"
    using assms by (intro mult_right_mono) simp_all
  then have "y * p + b < x * p + a"
    using assms by (simp add: algebra_simps)
  with greater show ?thesis by simp
qed

lemma lower_hex_digit_code:
  assumes "c \<in> set hex_digits"
  shows "hex_digit_number c = (if (of_char c :: int) \<le> 57 then of_char c - 48 else of_char c - 87)"
    and "(48 \<le> (of_char c :: int) \<and> (of_char c :: int) \<le> 57) \<or>
         (97 \<le> (of_char c :: int) \<and> (of_char c :: int) \<le> 102)"
    and "0 \<le> hex_digit_number c" and "hex_digit_number c < 16"
proof -
  let ?Q = "\<lambda>c. hex_digit_number c =
        (if (of_char c :: int) \<le> 57 then of_char c - 48 else of_char c - 87)
      \<and> ((48 \<le> (of_char c :: int) \<and> (of_char c :: int) \<le> 57) \<or>
         (97 \<le> (of_char c :: int) \<and> (of_char c :: int) \<le> 102))
      \<and> 0 \<le> hex_digit_number c \<and> hex_digit_number c < 16"
  have "list_all ?Q hex_digits"
    by code_simp
  then have "?Q c"
    using assms unfolding list_all_iff by blast
  then show "hex_digit_number c = (if (of_char c :: int) \<le> 57 then of_char c - 48 else of_char c - 87)"
    and "(48 \<le> (of_char c :: int) \<and> (of_char c :: int) \<le> 57) \<or>
         (97 \<le> (of_char c :: int) \<and> (of_char c :: int) \<le> 102)"
    and "0 \<le> hex_digit_number c" and "hex_digit_number c < 16"
    by blast+
qed

lemma lower_hex_digit_order:
  assumes "x \<in> set hex_digits" and "y \<in> set hex_digits"
  shows "((of_char x :: int) < of_char y) = (hex_digit_number x < hex_digit_number y)"
    and "(x = y) = (hex_digit_number x = hex_digit_number y)"
proof -
  note x = lower_hex_digit_code(1,2) [OF assms(1)]
  note y = lower_hex_digit_code(1,2) [OF assms(2)]
  show "((of_char x :: int) < of_char y) = (hex_digit_number x < hex_digit_number y)"
    using x y by (auto split: if_splits)
  have "(x = y) = ((of_char x :: int) = of_char y)"
    by simp
  also have "\<dots> = (hex_digit_number x = hex_digit_number y)"
    using x y by (auto split: if_splits)
  finally show "(x = y) = (hex_digit_number x = hex_digit_number y)" .
qed

lemma hex_number_bounds:
  "lower_hex s \<Longrightarrow> 0 \<le> hex_number s \<and> hex_number s < 16 ^ length s"
proof -
  assume "lower_hex s"
  then have "list_all (\<lambda>d. 0 \<le> d \<and> d < 16) (map hex_digit_number s)"
    by (auto simp: lower_hex_def list_all_iff lower_hex_digit_code(3,4))
  from from_digits_be_bounds [OF this] show ?thesis
    by (simp add: hex_number_def)
qed

lemma str_le_lower_hex:
  "length a = length b \<Longrightarrow> lower_hex a \<Longrightarrow> lower_hex b \<Longrightarrow>
   str_le a b = (hex_number a \<le> hex_number b)"
proof (induction a b rule: list_induct2)
  case Nil
  then show ?case by (simp add: hex_number_def)
next
  case (Cons x xs y ys)
  then have x: "x \<in> set hex_digits" and y: "y \<in> set hex_digits"
    and xs: "lower_hex xs" and ys: "lower_hex ys"
    by (simp_all add: lower_hex_def)
  note bxs = hex_number_bounds [OF xs] and bys = hex_number_bounds [OF ys]
  have "(hex_number (x # xs) \<le> hex_number (y # ys)) =
      (hex_digit_number x * 16 ^ length xs + hex_number xs
        \<le> hex_digit_number y * 16 ^ length xs + hex_number ys)"
    using Cons.hyps by (simp add: hex_number_def from_digits_be_Cons)
  also have "\<dots> = (hex_digit_number x < hex_digit_number y \<or>
      (hex_digit_number x = hex_digit_number y \<and> hex_number xs \<le> hex_number ys))"
    using bxs bys Cons.hyps by (intro leading_digit_order) simp_all
  also have "\<dots> = str_le (x # xs) (y # ys)"
    using Cons.IH [OF xs ys] lower_hex_digit_order [OF x y] by simp
  finally show ?case by simp
qed


lemma hexlify_snoc:
  "hexlify (bs @ [b]) =
    hexlify bs @ [hex_digits ! nat (uint b div 16), hex_digits ! nat (uint b mod 16)]"
  by (simp add: hexlify_def)

lemma hex_digit_number_nibbles:
  fixes b :: byte
  shows "hex_digit_number (hex_digits ! nat (uint b div 16)) = uint b div 16"
    and "hex_digit_number (hex_digits ! nat (uint b mod 16)) = uint b mod 16"
  by (simp_all add: hex_digit_number_def hex_value_nibbles)

lemma hex_number_hexlify: "hex_number (hexlify bs) = big_endian_value bs"
proof (induction bs rule: rev_induct)
  case Nil
  then show ?case by (simp add: hex_number_def big_endian_value_def)
next
  case (snoc b bs)
  let ?hi = "uint b div 16" and ?lo = "uint b mod 16"
  have "hex_number (hexlify (bs @ [b])) =
      from_digits_be 16 ((map hex_digit_number (hexlify bs) @ [?hi]) @ [?lo])"
    by (simp add: hex_number_def hexlify_snoc hex_digit_number_nibbles)
  also have "\<dots> = (hex_number (hexlify bs) * 16 + ?hi) * 16 + ?lo"
    by (simp only: from_digits_be_snoc hex_number_def)
  also have "\<dots> = big_endian_value bs * 256 + uint b"
    using snoc by (simp add: algebra_simps)
  also have "\<dots> = big_endian_value (bs @ [b])"
    by (simp add: big_endian_value_def from_digits_be_snoc)
  finally show ?case .
qed

lemma lower_hex_hexlify: "lower_hex (hexlify bs)"
proof -
  have "length hex_digits = 16"
    by (simp add: hex_digits_def)
  then have "hex_digits ! nat (uint b div 16) \<in> set hex_digits"
    and "hex_digits ! nat (uint b mod 16) \<in> set hex_digits" for b :: byte
    using byte_nibbles(1,2) [of b] by simp_all
  then show ?thesis
    by (induction bs) (simp_all add: hexlify_Cons lower_hex_def)
qed

subsection \<open>The search loop\<close>

lemma work_loop_Some:
  "work_loop block_hash difficulty draws = Some nonce \<Longrightarrow>
   \<exists>candidate. nonce = hexlify (rev candidate) \<and> length candidate = 8 \<and>
     str_ge (work_of_candidate candidate block_hash) difficulty"
proof (induction draws)
  case Nil
  then show ?case by simp
next
  case (Cons r draws)
  show ?case
  proof (cases "str_ge (work_of_candidate (rev (map word_of_int (digits_be 256 8 (uint r)))) block_hash) difficulty")
    case True
    with Cons.prems have "nonce = hexlify (rev (rev (map word_of_int (digits_be 256 8 (uint r)))))"
      by (simp add: Let_def)
    with True show ?thesis
      by (intro exI [of _ "rev (map word_of_int (digits_be 256 8 (uint r)))"]) simp
  next
    case False
    with Cons.prems have "work_loop block_hash difficulty draws = Some nonce"
      by (simp add: Let_def)
    then show ?thesis by (rule Cons.IH)
  qed
qed

subsection \<open>The all-zero test\<close>

lemma single_char_test:
  "(length (remdups s) = 1 \<and> c \<in> set s) = (s \<noteq> [] \<and> list_all (\<lambda>x. x = c) s)"
proof -
  have "(length (remdups s) = 1 \<and> c \<in> set s) = (card (set s) = 1 \<and> c \<in> set s)"
    by (simp add: length_remdups_card_conv)
  also have "\<dots> = (set s = {c})"
    by (auto simp: card_1_singleton_iff)
  also have "\<dots> = (s \<noteq> [] \<and> list_all (\<lambda>x. x = c) s)"
    by (cases s) (auto simp: list_all_iff)
  finally show ?thesis .
qed

subsection \<open>The index bytes of the key derivation\<close>

lemma take_digits_be:
  "0 < base \<Longrightarrow> take n (digits_be base (n + m) v) = digits_be base n (v div base ^ m)"
proof (induction m arbitrary: v)
  case 0
  then show ?case by simp
next
  case (Suc m)
  have "v div base div base ^ m = v div (base * base ^ m)"
    using Suc.prems by (simp add: zdiv_zmult2_eq)
  moreover have "take n (digits_be base (n + Suc m) v) = take n (digits_be base (n + m) (v div base))"
    by simp
  ultimately show ?case
    using Suc.IH [OF Suc.prems, of "v div base"] by simp
qed

lemma index_in_bytes_zero:
  assumes "0 \<le> index" and "index \<le> 2 ^ 32 - 1"
  shows "to_bytes_big 8 index = Inr (map word_of_int (digits_be 256 8 index))"
    and "take (8 - PRIVATE_KEY_INDEX_SIZE_BYTES) (map word_of_int (digits_be 256 8 index)) =
           ([0, 0, 0, 0] :: bytes)"
proof -
  show "to_bytes_big 8 index = Inr (map word_of_int (digits_be 256 8 index))"
    using assms by (simp add: to_bytes_big_def)
  have "index div 256 ^ 4 = 0"
    using assms by simp
  moreover have "take 4 (digits_be 256 (4 + 4) index) = digits_be 256 4 (index div 256 ^ 4)"
    by (rule take_digits_be) simp
  moreover have "digits_be 256 4 0 = [0, 0, 0, 0]"
    by code_simp
  ultimately show "take (8 - PRIVATE_KEY_INDEX_SIZE_BYTES) (map word_of_int (digits_be 256 8 index)) =
           ([0, 0, 0, 0] :: bytes)"
    by (simp add: PRIVATE_KEY_INDEX_SIZE_BYTES_def take_map)
qed

lemma private_key_ignores_index:
  assumes "0 \<le> index" and "index \<le> 2 ^ 32 - 1" and "unhexlify seed = Inr seed_bytes"
  shows "generate_public_private_key_pairs verifying_key seed index =
    Inr (upper (hexlify (blake2b 32 (seed_bytes @ [0, 0, 0, 0]))),
         upper (hexlify (verifying_key (blake2b 32 (seed_bytes @ [0, 0, 0, 0])))))"
  using assms index_in_bytes_zero [OF assms(1,2)]
  by (simp add: generate_public_private_key_pairs_def KEYS_SIZE_BYTES_def Let_def)

lemma key_pair_ignores_index:
  assumes "0 \<le> i" and "i \<le> 2 ^ 32 - 1" and "0 \<le> j" and "j \<le> 2 ^ 32 - 1"
  shows "generate_public_private_key_pairs verifying_key seed i =
         generate_public_private_key_pairs verifying_key seed j"
proof (cases "unhexlify seed")
  case (Inl e)
  then show ?thesis
    using assms index_in_bytes_zero(1) [of i] index_in_bytes_zero(1) [of j]
    by (simp add: generate_public_private_key_pairs_def)
next
  case (Inr seed_bytes)
  then show ?thesis
    using assms by (simp add: private_key_ignores_index)
qed

subsection \<open>The two patterns exclude each other\<close>

lemma derive_public_key_from_address_errors:
  "derive_public_key_from_address a \<noteq> Inl UnknownBlockType"
  by (simp add: derive_public_key_from_address_def nbase32_to_bytes_def Let_def)

lemma address_shape_hd:
  assumes "address_shape s"
  shows "s \<noteq> [] \<and> (hd s = CHR ''n'' \<or> hd s = CHR ''x'')"
proof -
  from assms have "take 5 s = ''nano_'' \<or> take 4 s = ''xrb_''"
    by (auto simp: address_shape_def split: if_splits)
  then show ?thesis
    by (cases s) auto
qed

lemma match_nano_address_hd:
  assumes "match_nano_address s"
  shows "s \<noteq> [] \<and> (hd s = CHR ''n'' \<or> hd s = CHR ''x'')"
proof -
  from assms consider "address_shape s" | "s \<noteq> []" "address_shape (butlast s)"
    by (auto simp: match_nano_address_def dollar_anchored_def)
  then show ?thesis
  proof cases
    case 1
    then show ?thesis by (rule address_shape_hd)
  next
    case 2
    from address_shape_hd [OF 2(2)] have "butlast s \<noteq> []"
      and "hd (butlast s) = CHR ''n'' \<or> hd (butlast s) = CHR ''x''"
      by simp_all
    moreover from this(1) have "hd (butlast s) = hd s"
      by (cases s) auto
    ultimately show ?thesis
      using 2(1) by simp
  qed
qed

lemma match_hex_hd:
  assumes "match_hex s"
  shows "s \<noteq> [] \<and> hex_value (hd s) \<noteq> None"
proof -
  have shape: "t \<noteq> [] \<and> hex_value (hd t) \<noteq> None" if "hex_shape t" for t
    using that by (cases t) (auto simp: hex_shape_def)
  from assms consider "hex_shape s" | "s \<noteq> []" "hex_shape (butlast s)"
    by (auto simp: match_hex_def dollar_anchored_def)
  then show ?thesis
  proof cases
    case 1
    then show ?thesis by (rule shape)
  next
    case 2
    from shape [OF 2(2)] have "butlast s \<noteq> []" and "hex_value (hd (butlast s)) \<noteq> None"
      by simp_all
    moreover from this(1) have "hd (butlast s) = hd s"
      by (cases s) auto
    ultimately show ?thesis
      using 2(1) by simp
  qed
qed

lemma hex_value_n_x: "hex_value (CHR ''n'') = None" "hex_value (CHR ''x'') = None"
  by code_simp+

lemma match_hex_not_address: "match_hex s \<Longrightarrow> \<not> match_nano_address s"
  using match_hex_hd [of s] match_nano_address_hd [of s] hex_value_n_x by auto

lemma hex_shape_match_hex: "hex_shape s \<Longrightarrow> match_hex s"
  by (simp add: match_hex_def dollar_anchored_def)

lemma all_zero_match_hex:
  assumes "length (remdups s) = 1 \<and> CHR ''0'' \<in> set s"
  shows "match_hex s"
proof -
  have zero: "hex_value (CHR ''0'') = Some 0"
    by code_simp
  from assms have "s \<noteq> [] \<and> list_all (\<lambda>x. x = CHR ''0'') s"
    by (rule iffD1 [OF single_char_test])
  then have "hex_shape s"
    unfolding hex_shape_def list_all_iff using zero by fastforce
  then show ?thesis
    by (rule hex_shape_match_hex)
qed

subsection \<open>Sizes of the fields of a block\<close>

lemma unhexlify_length: "unhexlify s = Inr bs \<Longrightarrow> length s = 2 * length bs"
proof (induction s arbitrary: bs rule: induct_list012)
  case 1
  then show ?case by simp
next
  case (2 c)
  then show ?case by simp
next
  case (3 c d cs)
  from "3.prems" obtain h l bs' where
    "unhexlify cs = Inr bs'" and "bs = word_of_int (16 * h + l) # bs'"
    by (auto split: option.splits sum.splits)
  with "3.IH"(1) [of bs'] show ?case
    by simp
qed

lemma length_nbase32_to_bytes:
  "nbase32_to_bytes s = Inr k \<Longrightarrow> length k = (5 * length s) div 8"
  by (auto simp: nbase32_to_bytes_def split: if_splits)

lemma derive_public_key_from_address_Inr:
  assumes "derive_public_key_from_address a = Inr hex"
  shows "\<exists>k. hex = upper (hexlify k) \<and>
           nbase32_to_bytes (drop 5 (take (length a - 8) a)) = Inr k \<and>
           match_nano_address a \<and>
           drop (length a - 8) a = bytes_to_nbase32 (rev (blake2b 5 k))"
  using assms
  by (auto simp: derive_public_key_from_address_def Let_def split: if_splits sum.splits)

lemma newline_not_nbase32: "CHR 0x0A \<notin> set nbase32_alphabet"
  by (simp add: nbase32_alphabet_def)

lemma address_shape_length:
  assumes "address_shape s"
  shows "64 \<le> length s"
    and "take 5 s = ''nano_'' \<Longrightarrow> length s = 65"
proof -
  from assms show "64 \<le> length s"
    by (auto simp: address_shape_def split: if_splits)
  assume "take 5 s = ''nano_''"
  with assms have "length (drop 5 s) = 60"
    by (simp add: address_shape_def)
  then show "length s = 65"
    by simp
qed

lemma nano_address_key_length:
  assumes "derive_public_key_from_address a = Inr hex" and "take 5 a = ''nano_''"
  shows "\<exists>k. hex = upper (hexlify k) \<and> length k = 32"
proof -
  from derive_public_key_from_address_Inr [OF assms(1)] obtain k where
    hex: "hex = upper (hexlify k)" and
    dec: "nbase32_to_bytes (drop 5 (take (length a - 8) a)) = Inr k" and
    m: "match_nano_address a" and
    cs: "drop (length a - 8) a = bytes_to_nbase32 (rev (blake2b 5 k))"
    by blast
  let ?cs = "bytes_to_nbase32 (rev (blake2b 5 k))"
  have len_cs: "length ?cs = 8"
    by (simp add: length_blake2b)
  then have ne: "?cs \<noteq> []"
    by (metis list.size(3) zero_neq_numeral)
  have "list_all (\<lambda>c. c \<in> set nbase32_alphabet) ?cs"
    by (rule bytes_to_nbase32_alphabet)
  with ne have "last ?cs \<in> set nbase32_alphabet"
    by (simp add: list_all_iff)
  moreover have "last ?cs = last a"
    using ne cs by (metis last_drop drop_eq_Nil not_le)
  ultimately have "last a \<noteq> CHR 0x0A"
    using newline_not_nbase32 by metis
  with m have shape: "address_shape a"
    by (auto simp: match_nano_address_def dollar_anchored_def)
  from address_shape_length(2) [OF shape assms(2)] have "length a = 65" .
  then have "length (drop 5 (take (length a - 8) a)) = 52"
    by simp
  with length_nbase32_to_bytes [OF dec] have "length k = 32"
    by simp
  with hex show ?thesis
    by blast
qed

lemma to_bytes_big_value:
  assumes "to_bytes_big n x = Inr bs"
  shows "length bs = n" and "big_endian_value bs = x"
proof -
  from assms have x: "0 \<le> x" "x < 256 ^ n"
    and bs: "bs = map word_of_int (digits_be 256 n x)"
    by (auto simp: to_bytes_big_def split: if_splits)
  show "length bs = n"
    by (simp add: bs)
  have "uint (word_of_int d :: byte) = d" if "d \<in> set (digits_be 256 n x)" for d
  proof -
    from digits_be_in_range [OF _ that] have "0 \<le> d" "d < 256" by simp_all
    then show ?thesis
      by (simp add: uint_word_of_int take_bit_eq_mod)
  qed
  then have "map uint bs = digits_be 256 n x"
    by (simp add: bs map_idI)
  then have "big_endian_value bs = x mod 256 ^ n"
    by (simp add: big_endian_value_def from_digits_be_digits_be)
  with x show "big_endian_value bs = x"
    by simp
qed

lemma state_block_header: "STATE_BLOCK_HEADER_BYTES = replicate 31 0 @ [6]"
  by code_simp

lemma nano_prefix_not_hex:
  assumes "take 5 s = ''nano_''"
  shows "\<not> match_hex s"
proof
  assume "match_hex s"
  from match_hex_hd [OF this] have "hex_value (hd s) \<noteq> None" by simp
  moreover from assms have "hd s = CHR ''n''"
    by (cases s) auto
  ultimately show False
    using hex_value_n_x(1) by simp
qed

lemma nano_prefix_not_all_zero:
  assumes "take 5 s = ''nano_''"
  shows "\<not> (length (remdups s) = 1 \<and> CHR ''0'' \<in> set s)"
  using all_zero_match_hex [of s] nano_prefix_not_hex [OF assms] by blast

lemma link_payload_length:
  assumes "process_link_data b = Inr link_hex" and "unhexlify link_hex = Inr link_bytes"
    and "(length (link b) = 64 \<and> hex_shape (link b)) \<or> take 5 (link b) = ''nano_''"
  shows "length link_bytes = 32"
  using assms(3)
proof
  assume h: "length (link b) = 64 \<and> hex_shape (link b)"
  then have "process_link_data b = Inr (link b)"
    using match_hex_not_address [of "link b"] hex_shape_match_hex [of "link b"]
    by (simp add: process_link_data_def)
  with assms(1,2) h unhexlify_length [of "link b" link_bytes] show ?thesis
    by simp
next
  assume n: "take 5 (link b) = ''nano_''"
  from assms(1) nano_prefix_not_hex [OF n] nano_prefix_not_all_zero [OF n]
  have "derive_public_key_from_address (link b) = Inr link_hex"
    by (simp add: process_link_data_def split: if_splits)
  from nano_address_key_length [OF this n] obtain k where
    "link_hex = upper (hexlify k)" "length k = 32"
    by blast
  with assms(2) show ?thesis
    by simp
qed

subsection \<open>The work base in the two functions that use it\<close>

lemma work_loop_nonempty: "work_loop block_hash difficulty draws \<noteq> Some []"
proof
  assume "work_loop block_hash difficulty draws = Some []"
  from work_loop_Some [OF this] obtain candidate :: bytes where
    c: "[] = hexlify (rev candidate)" "length candidate = 8"
    by blast
  from c(1) have "candidate = []"
    by (metis hexlify_eq_Nil rev_is_Nil_conv)
  with c(2) show False
    by simp
qed

lemma work_base_get_block_hash:
  "(case get_block_hash b of Inl e \<Rightarrow> Inl e | Inr h \<Rightarrow> unhexlify h) = work_base b"
  unfolding get_block_hash_def work_base_def single_char_test by simp

lemma compute_work_work_base:
  "compute_work b difficulty draws =
     (case work_base b of
        Inl e \<Rightarrow> Inl e
      | Inr base \<Rightarrow> Inr (work_loop base difficulty draws))"
proof -
  have loop: "(case work_loop base difficulty draws of
                 None \<Rightarrow> Inr None
               | Some nonce \<Rightarrow> if nonce \<noteq> [] then Inr (Some nonce) else Inr None) =
              (Inr (work_loop base difficulty draws) :: error + string option)" for base
    using work_loop_nonempty [of base difficulty draws]
    by (cases "work_loop base difficulty draws") auto
  show ?thesis
    unfolding compute_work_def loop work_base_get_block_hash [symmetric]
    by (simp split: sum.splits)
qed

lemma validate_work_work_base:
  "validate_work b (Some nonce) difficulty =
     (if nonce = [] then Inr False
      else case work_base b of
             Inl e \<Rightarrow> Inl e
           | Inr base \<Rightarrow>
               (case unhexlify nonce of
                  Inl e \<Rightarrow> Inl e
                | Inr bin_nonce \<Rightarrow>
                    Inr (str_ge (hexlify (rev (blake2b 8 (rev bin_nonce @ base))))
                           difficulty)))"
  unfolding validate_work_def work_base_get_block_hash [symmetric]
  by (simp add: WORK_SIZE_BYTES_def Let_def split: sum.splits)

subsection \<open>The steps of the block hash\<close>

lemma unhexlify_error: "unhexlify s = Inl e \<Longrightarrow> e = BinasciiError"
proof (induction s rule: induct_list012)
  case 1
  then show ?case by simp
next
  case (2 c)
  then show ?case by simp
next
  case (3 c d cs)
  then show ?case
    by (auto split: option.splits sum.splits)
qed

lemma py_int_error: "py_int s = Inl e \<Longrightarrow> e = ValueError"
  by (auto simp: py_int_def Let_def split: prod.splits option.splits if_splits)

lemma to_bytes_big_error: "to_bytes_big n x = Inl e \<Longrightarrow> e = OverflowError"
  by (auto simp: to_bytes_big_def split: if_splits)

lemma derive_public_key_from_address_unhexlify:
  assumes "derive_public_key_from_address a = Inr key_hex"
  shows "\<exists>k. key_hex = upper (hexlify k) \<and> unhexlify key_hex = Inr k"
  using derive_public_key_from_address_Inr [OF assms] by auto

lemma create_block_hash_of_fields:
  assumes "derive_public_key_from_address (account b) = Inr (upper (hexlify account_key))"
    and "unhexlify (previous b) = Inr previous_bytes"
    and "derive_public_key_from_address (representative b) =
           Inr (upper (hexlify representative_key))"
    and "py_int (balance b) = Inr n"
    and "to_bytes_big 16 n = Inr balance_bytes"
    and "process_link_data b = Inr link_hex"
    and "unhexlify link_hex = Inr link_bytes"
  shows "create_block_hash b =
    Inr (blake2b 32 (replicate 31 0 @ [6] @ account_key @ previous_bytes @
           representative_key @ balance_bytes @ link_bytes))"
  using assms
  by (simp add: create_block_hash_def BALANCE_SIZE_BYTES_def SIGNATURE_DIGEST_SIZE_BYTES_def
      state_block_header)

lemma create_block_hash_fields:
  assumes "create_block_hash b = Inr digest"
  shows "\<exists>account_key previous_bytes representative_key n balance_bytes link_hex link_bytes.
      derive_public_key_from_address (account b) = Inr (upper (hexlify account_key)) \<and>
      unhexlify (previous b) = Inr previous_bytes \<and>
      derive_public_key_from_address (representative b) =
        Inr (upper (hexlify representative_key)) \<and>
      py_int (balance b) = Inr n \<and>
      to_bytes_big 16 n = Inr balance_bytes \<and>
      process_link_data b = Inr link_hex \<and>
      unhexlify link_hex = Inr link_bytes \<and>
      digest = blake2b 32 (replicate 31 0 @ [6] @ account_key @ previous_bytes @
                 representative_key @ balance_bytes @ link_bytes)"
proof -
  from assms obtain public_key representative_hex account_bytes previous_bytes
      representative_bytes n balance_bytes link_hex link_bytes where
    a: "derive_public_key_from_address (account b) = Inr public_key" and
    r: "derive_public_key_from_address (representative b) = Inr representative_hex" and
    ab: "unhexlify public_key = Inr account_bytes" and
    pb: "unhexlify (previous b) = Inr previous_bytes" and
    rb: "unhexlify representative_hex = Inr representative_bytes" and
    n: "py_int (balance b) = Inr n" and
    bb: "to_bytes_big BALANCE_SIZE_BYTES n = Inr balance_bytes" and
    l: "process_link_data b = Inr link_hex" and
    lb: "unhexlify link_hex = Inr link_bytes" and
    d: "digest = blake2b SIGNATURE_DIGEST_SIZE_BYTES
          (concat [STATE_BLOCK_HEADER_BYTES, account_bytes, previous_bytes,
                   representative_bytes, balance_bytes, link_bytes])"
    unfolding create_block_hash_def
    by (simp split: sum.splits)
  from derive_public_key_from_address_unhexlify [OF a] ab
  have a': "public_key = upper (hexlify account_bytes)" by auto
  from derive_public_key_from_address_unhexlify [OF r] rb
  have r': "representative_hex = upper (hexlify representative_bytes)" by auto
  have "digest = blake2b 32 (replicate 31 0 @ [6] @ account_bytes @ previous_bytes @
                 representative_bytes @ balance_bytes @ link_bytes)"
    using d by (simp add: SIGNATURE_DIGEST_SIZE_BYTES_def state_block_header)
  with a r a' r' pb n bb l lb show ?thesis
    unfolding BALANCE_SIZE_BYTES_def by blast
qed

lemma create_block_hash_reaches_link:
  assumes "derive_public_key_from_address (account b) = Inr account_hex"
    and "derive_public_key_from_address (representative b) = Inr representative_hex"
    and "unhexlify (previous b) = Inr previous_bytes"
    and "py_int (balance b) = Inr n"
    and "to_bytes_big 16 n = Inr balance_bytes"
    and "process_link_data b = Inl e"
  shows "create_block_hash b = Inl e"
proof -
  from derive_public_key_from_address_unhexlify [OF assms(1)] obtain ak where
    "unhexlify account_hex = Inr ak" by blast
  moreover from derive_public_key_from_address_unhexlify [OF assms(2)] obtain rk where
    "unhexlify representative_hex = Inr rk" by blast
  ultimately show ?thesis
    using assms by (simp add: create_block_hash_def BALANCE_SIZE_BYTES_def)
qed

lemma create_block_hash_link_error:
  assumes "create_block_hash b = Inl UnknownBlockType"
  shows "(\<exists>account_hex representative_hex previous_bytes n balance_bytes.
            derive_public_key_from_address (account b) = Inr account_hex \<and>
            derive_public_key_from_address (representative b) = Inr representative_hex \<and>
            unhexlify (previous b) = Inr previous_bytes \<and>
            py_int (balance b) = Inr n \<and>
            to_bytes_big 16 n = Inr balance_bytes) \<and>
         process_link_data b = Inl UnknownBlockType"
  using assms derive_public_key_from_address_errors [of "account b"]
    derive_public_key_from_address_errors [of "representative b"]
  unfolding create_block_hash_def BALANCE_SIZE_BYTES_def
  by (auto split: sum.splits dest: unhexlify_error py_int_error to_bytes_big_error)

section \<open>Properties\<close>

text \<open>Claim C10.  \<open>validate_work\<close> answers \<open>False\<close>, and raises nothing, when the nonce is
  \<open>None\<close> or the empty string, whatever the block and the difficulty are: the test
  \<open>if not nonce\<close> comes before anything that could fail.  So the \<open>None\<close> that a timed-out
  \<open>compute_work\<close> returns can be passed on to \<open>validate_work\<close>.\<close>

theorem validate_work_without_nonce:
  "validate_work b None difficulty = Inr False \<and>
   validate_work b (Some []) difficulty = Inr False"
  by (simp add: validate_work_def)

text \<open>Claim C8.  Address round trip: for a public key of 32 bytes, given in hexadecimal,
  \<open>derive_address_from_public_key\<close> returns an address on which
  \<open>derive_public_key_from_address\<close> succeeds (the address matches the pattern and its
  checksum is the one recomputed) and returns the key, in upper-case hexadecimal.\<close>

theorem address_round_trip:
  assumes "unhexlify public_key = Inr k" and "length k = 32"
  shows "\<exists>address. derive_address_from_public_key public_key = Inr address \<and>
           derive_public_key_from_address address = Inr (upper (hexlify k)) \<and>
           unhexlify (upper (hexlify k)) = Inr k"
proof -
  let ?c = "rev (blake2b 5 k)"
  let ?address = "''nano_'' @ bytes_to_nbase32 k @ bytes_to_nbase32 ?c"
  have c: "length ?c = 5"
    by (simp add: length_blake2b)
  have len: "length (bytes_to_nbase32 k) = 52" "length (bytes_to_nbase32 ?c) = 8"
    using assms c by simp_all
  have enc: "derive_address_from_public_key public_key = Inr ?address"
    using assms by (simp add: derive_address_from_public_key_def CHECKSUM_DIGEST_SIZE_BYTES_def)
  have "match_nano_address ?address"
    using address_shape_nano [OF assms(2) c]
    by (simp add: match_nano_address_def dollar_anchored_def)
  moreover have "drop 5 (take (length ?address - 8) ?address) = bytes_to_nbase32 k"
    using len by simp
  moreover have "drop (length ?address - 8) ?address = bytes_to_nbase32 ?c"
    using len by simp
  ultimately have "derive_public_key_from_address ?address = Inr (upper (hexlify k))"
    by (simp only: derive_public_key_from_address_def Let_def
        nbase32_to_bytes_bytes_to_nbase32) simp
  with enc show ?thesis
    by simp
qed

theorem address_round_trip_witness:
  "unhexlify ''7194452B7997A9F5ABB2F434DB010CA18B5A2715D141F9CFA64A296B3EB4DCCD'' =
     Inr [0x71, 0x94, 0x45, 0x2b, 0x79, 0x97, 0xa9, 0xf5, 0xab, 0xb2, 0xf4, 0x34, 0xdb,
      0x1, 0xc, 0xa1, 0x8b, 0x5a, 0x27, 0x15, 0xd1, 0x41, 0xf9, 0xcf, 0xa6, 0x4a,
      0x29, 0x6b, 0x3e, 0xb4, 0xdc, 0xcd] \<and>
   length ([0x71, 0x94, 0x45, 0x2b, 0x79, 0x97, 0xa9, 0xf5, 0xab, 0xb2, 0xf4, 0x34, 0xdb,
      0x1, 0xc, 0xa1, 0x8b, 0x5a, 0x27, 0x15, 0xd1, 0x41, 0xf9, 0xcf, 0xa6, 0x4a,
      0x29, 0x6b, 0x3e, 0xb4, 0xdc, 0xcd] :: bytes) = 32 \<and>
   (\<exists>address.
      derive_address_from_public_key
        ''7194452B7997A9F5ABB2F434DB010CA18B5A2715D141F9CFA64A296B3EB4DCCD'' = Inr address \<and>
      derive_public_key_from_address address =
        Inr (upper (hexlify [0x71, 0x94, 0x45, 0x2b, 0x79, 0x97, 0xa9, 0xf5, 0xab, 0xb2, 0xf4, 0x34, 0xdb,
      0x1, 0xc, 0xa1, 0x8b, 0x5a, 0x27, 0x15, 0xd1, 0x41, 0xf9, 0xcf, 0xa6, 0x4a,
      0x29, 0x6b, 0x3e, 0xb4, 0xdc, 0xcd])) \<and>
      unhexlify (upper (hexlify [0x71, 0x94, 0x45, 0x2b, 0x79, 0x97, 0xa9, 0xf5, 0xab, 0xb2, 0xf4, 0x34, 0xdb,
      0x1, 0xc, 0xa1, 0x8b, 0x5a, 0x27, 0x15, 0xd1, 0x41, 0xf9, 0xcf, 0xa6, 0x4a,
      0x29, 0x6b, 0x3e, 0xb4, 0xdc, 0xcd])) =
        Inr [0x71, 0x94, 0x45, 0x2b, 0x79, 0x97, 0xa9, 0xf5, 0xab, 0xb2, 0xf4, 0x34, 0xdb,
      0x1, 0xc, 0xa1, 0x8b, 0x5a, 0x27, 0x15, 0xd1, 0x41, 0xf9, 0xcf, 0xa6, 0x4a,
      0x29, 0x6b, 0x3e, 0xb4, 0xdc, 0xcd])"
proof -
  have h: "unhexlify ''7194452B7997A9F5ABB2F434DB010CA18B5A2715D141F9CFA64A296B3EB4DCCD'' =
     Inr [0x71, 0x94, 0x45, 0x2b, 0x79, 0x97, 0xa9, 0xf5, 0xab, 0xb2, 0xf4, 0x34, 0xdb,
      0x1, 0xc, 0xa1, 0x8b, 0x5a, 0x27, 0x15, 0xd1, 0x41, 0xf9, 0xcf, 0xa6, 0x4a,
      0x29, 0x6b, 0x3e, 0xb4, 0xdc, 0xcd]"
    by code_simp
  have l: "length ([0x71, 0x94, 0x45, 0x2b, 0x79, 0x97, 0xa9, 0xf5, 0xab, 0xb2, 0xf4, 0x34, 0xdb,
      0x1, 0xc, 0xa1, 0x8b, 0x5a, 0x27, 0x15, 0xd1, 0x41, 0xf9, 0xcf, 0xa6, 0x4a,
      0x29, 0x6b, 0x3e, 0xb4, 0xdc, 0xcd] :: bytes) = 32"
    by simp
  from address_round_trip [OF h l] h l show ?thesis
    by blast
qed

text \<open>Claim C6, the counterexample.  The threshold is compared as text: the digest is
  written with lower-case digits and \<open>work >= difficulty\<close> is Python's string order.  With
  the difficulty \<open>FFFFFFF800000000\<close>, the same 64-bit threshold written in upper case, the
  nonce 2 on the example send block gives the digest value \<open>de9461b9f662967d\<close>, below the
  threshold, and \<open>validate_work\<close> returns \<open>True\<close> (the letter \<open>d\<close> sorts after \<open>F\<close>).\<close>

theorem validate_work_uppercase_difficulty:
  "validate_work example_send_block (Some ''0000000000000002'') ''FFFFFFF800000000'' = Inr True \<and>
   big_endian_value (rev (blake2b 8 (rev [0x0, 0x0, 0x0, 0x0, 0x0, 0x0, 0x0, 0x2] @
        [0xff, 0x47, 0x45, 0x14, 0xe2, 0xb7, 0xde, 0xd9, 0x7a, 0x66, 0x5c, 0x21, 0x21, 0xc,
        0x27, 0x3e, 0xfb, 0x6a, 0x6d, 0x4e, 0xd4, 0xa3, 0xe, 0xaa, 0xe7, 0x61, 0x83, 0x7d,
        0x3f, 0xed, 0x25, 0xf3]))) = 0xde9461b9f662967d \<and>
   hex_number ''FFFFFFF800000000'' = 0xFFFFFFF800000000 \<and>
   (0xde9461b9f662967d :: int) < 0xFFFFFFF800000000"
  by code_simp

text \<open>Claim C6, as amended.  For a nonce that is a non-empty hexadecimal text and a block
  whose work base decodes, \<open>validate_work\<close> returns, for every difficulty text, the string
  comparison \<open>work >= difficulty\<close>, where \<open>work\<close> is the lower-case hexadecimal text of the
  8-byte blake2b digest of the reversed nonce followed by the work base, itself reversed.
  When the difficulty is exactly 16 lower-case hexadecimal digits, this is true if and only
  if that digest, read as a big-endian 64-bit number, is at least the threshold the
  difficulty denotes.  Against \<open>fffffff800000000\<close> the digest text \<open>fffffff900000000\<close> is
  sufficient and \<open>fffffff700000000\<close> is not.\<close>

theorem validate_work_threshold:
  assumes "nonce \<noteq> []"
    and "get_block_hash b = Inr h"
    and "unhexlify h = Inr base"
    and "unhexlify nonce = Inr bin_nonce"
  shows "validate_work b (Some nonce) difficulty =
           Inr (str_ge (hexlify (rev (blake2b 8 (rev bin_nonce @ base)))) difficulty) \<and>
         (length difficulty = 16 \<and> lower_hex difficulty \<longrightarrow>
            validate_work b (Some nonce) difficulty =
              Inr (hex_number difficulty
                     \<le> big_endian_value (rev (blake2b 8 (rev bin_nonce @ base))))) \<and>
         str_ge ''fffffff900000000'' MINIMUM_NETWORK_DIFFICULTY \<and>
         \<not> str_ge ''fffffff700000000'' MINIMUM_NETWORK_DIFFICULTY"
proof -
  let ?digest = "rev (blake2b 8 (rev bin_nonce @ base))"
  have v: "validate_work b (Some nonce) difficulty = Inr (str_ge (hexlify ?digest) difficulty)"
    using assms by (simp add: validate_work_def WORK_SIZE_BYTES_def)
  have n: "str_ge (hexlify ?digest) difficulty =
        (hex_number difficulty \<le> big_endian_value ?digest)"
    if "length difficulty = 16 \<and> lower_hex difficulty"
  proof -
    have "length (hexlify ?digest) = 16"
      by (simp add: length_blake2b)
    with that have "length difficulty = length (hexlify ?digest)"
      by simp
    from str_le_lower_hex [OF this _ lower_hex_hexlify] that show ?thesis
      by (simp add: str_ge_def hex_number_hexlify)
  qed
  have "str_ge ''fffffff900000000'' MINIMUM_NETWORK_DIFFICULTY"
    by code_simp
  moreover have "\<not> str_ge ''fffffff700000000'' MINIMUM_NETWORK_DIFFICULTY"
    by code_simp
  ultimately show ?thesis
    using v n by simp
qed

theorem validate_work_threshold_witness:
  "''000000000016f9cc'' \<noteq> [] \<and>
   get_block_hash example_send_block = Inr ''FF474514E2B7DED97A665C21210C273EFB6A6D4ED4A30EAAE761837D3FED25F3'' \<and>
   unhexlify ''FF474514E2B7DED97A665C21210C273EFB6A6D4ED4A30EAAE761837D3FED25F3'' =
     Inr [0xff, 0x47, 0x45, 0x14, 0xe2, 0xb7, 0xde, 0xd9, 0x7a, 0x66, 0x5c, 0x21, 0x21, 0xc,
        0x27, 0x3e, 0xfb, 0x6a, 0x6d, 0x4e, 0xd4, 0xa3, 0xe, 0xaa, 0xe7, 0x61, 0x83, 0x7d,
        0x3f, 0xed, 0x25, 0xf3] \<and>
   unhexlify ''000000000016f9cc'' = Inr [0x0, 0x0, 0x0, 0x0, 0x0, 0x16, 0xf9, 0xcc] \<and>
   length ''fffffe0000000000'' = 16 \<and>
   lower_hex ''fffffe0000000000'' \<and>
   validate_work example_send_block (Some ''000000000016f9cc'') ''fffffe0000000000'' =
     Inr (str_ge (hexlify (rev (blake2b 8 (rev [0x0, 0x0, 0x0, 0x0, 0x0, 0x16, 0xf9, 0xcc] @
        [0xff, 0x47, 0x45, 0x14, 0xe2, 0xb7, 0xde, 0xd9, 0x7a, 0x66, 0x5c, 0x21, 0x21, 0xc,
        0x27, 0x3e, 0xfb, 0x6a, 0x6d, 0x4e, 0xd4, 0xa3, 0xe, 0xaa, 0xe7, 0x61, 0x83, 0x7d,
        0x3f, 0xed, 0x25, 0xf3])))) ''fffffe0000000000'') \<and>
   validate_work example_send_block (Some ''000000000016f9cc'') ''fffffe0000000000'' =
     Inr (hex_number ''fffffe0000000000''
        \<le> big_endian_value (rev (blake2b 8 (rev [0x0, 0x0, 0x0, 0x0, 0x0, 0x16, 0xf9, 0xcc] @
        [0xff, 0x47, 0x45, 0x14, 0xe2, 0xb7, 0xde, 0xd9, 0x7a, 0x66, 0x5c, 0x21, 0x21, 0xc,
        0x27, 0x3e, 0xfb, 0x6a, 0x6d, 0x4e, 0xd4, 0xa3, 0xe, 0xaa, 0xe7, 0x61, 0x83, 0x7d,
        0x3f, 0xed, 0x25, 0xf3]))))"
proof -
  have 1: "''000000000016f9cc'' \<noteq> []"
    by simp
  have 2: "get_block_hash example_send_block = Inr ''FF474514E2B7DED97A665C21210C273EFB6A6D4ED4A30EAAE761837D3FED25F3''"
    by code_simp
  have 3: "unhexlify ''FF474514E2B7DED97A665C21210C273EFB6A6D4ED4A30EAAE761837D3FED25F3'' =
     Inr [0xff, 0x47, 0x45, 0x14, 0xe2, 0xb7, 0xde, 0xd9, 0x7a, 0x66, 0x5c, 0x21, 0x21, 0xc,
        0x27, 0x3e, 0xfb, 0x6a, 0x6d, 0x4e, 0xd4, 0xa3, 0xe, 0xaa, 0xe7, 0x61, 0x83, 0x7d,
        0x3f, 0xed, 0x25, 0xf3]"
    by code_simp
  have 4: "unhexlify ''000000000016f9cc'' = Inr [0x0, 0x0, 0x0, 0x0, 0x0, 0x16, 0xf9, 0xcc]"
    by code_simp
  have 5: "length ''fffffe0000000000'' = 16"
    by simp
  have 6: "lower_hex ''fffffe0000000000''"
    by code_simp
  from validate_work_threshold [OF 1 2 3 4, of "''fffffe0000000000''"] 1 2 3 4 5 6
  show ?thesis
    by blast
qed

text \<open>Claim C7.  \<open>validate_work\<close> agrees with the search: when \<open>compute_work\<close> ends with a
  nonce (not with the time-out result \<open>None\<close>, and not with an error), \<open>validate_work\<close> on
  the same block, that nonce and the same difficulty returns \<open>True\<close>.  The random draws
  made before the deadline are arbitrary.\<close>

theorem compute_work_validates:
  assumes "compute_work b difficulty draws = Inr (Some nonce)"
  shows "validate_work b (Some nonce) difficulty = Inr True"
proof -
  from assms obtain h block_hash where
    h: "get_block_hash b = Inr h" and
    bh: "unhexlify h = Inr block_hash" and
    loop: "work_loop block_hash difficulty draws = Some nonce"
    by (auto simp: compute_work_def split: sum.splits option.splits if_splits)
  from work_loop_Some [OF loop] obtain candidate where
    c: "nonce = hexlify (rev candidate)" "length candidate = 8"
      "str_ge (work_of_candidate candidate block_hash) difficulty"
    by blast
  from c(1,2) have "nonce \<noteq> []"
    by auto
  with h bh c show ?thesis
    by (simp add: validate_work_def work_of_candidate_def)
qed

theorem compute_work_validates_witness:
  "compute_work example_send_block MINIMUM_RECEIVE_NETWORK_DIFFICULTY [2, 1505740] =
     Inr (Some ''000000000016f9cc'') \<and>
   validate_work example_send_block (Some ''000000000016f9cc'')
     MINIMUM_RECEIVE_NETWORK_DIFFICULTY = Inr True"
proof -
  have found: "compute_work example_send_block MINIMUM_RECEIVE_NETWORK_DIFFICULTY [2, 1505740] =
     Inr (Some ''000000000016f9cc'')"
    by code_simp
  show ?thesis
    by (rule conjI [OF found compute_work_validates [OF found]])
qed

text \<open>Claim C1, evaluated at the seed \<open>0123456789ABCDEF\<close> repeated four times and the
  index 1.  The slice \<open>[:-PRIVATE_KEY_INDEX_SIZE_BYTES]\<close> keeps the first four of the eight
  big-endian bytes of the index, the high-order ones, which are zero for every index that
  passes the range check.  The private key returned is the digest of the seed followed by
  \<open>00 00 00 00\<close>; the digest of the seed followed by the low-order bytes \<open>00 00 00 01\<close> is
  another value.\<close>

theorem private_key_at_index_one:
  "generate_public_private_key_pairs verifying_key
     ''0123456789ABCDEF0123456789ABCDEF0123456789ABCDEF0123456789ABCDEF'' 1 =
     Inr (''2837D62D197B04AA7A182C180226AC08AE74767D084DF10B8FA4D7C52150141E'',
          upper (hexlify (verifying_key
            [0x28, 0x37, 0xd6, 0x2d, 0x19, 0x7b, 0x4, 0xaa, 0x7a, 0x18, 0x2c, 0x18, 0x2, 0x26,
        0xac, 0x8, 0xae, 0x74, 0x76, 0x7d, 0x8, 0x4d, 0xf1, 0xb, 0x8f, 0xa4, 0xd7, 0xc5,
        0x21, 0x50, 0x14, 0x1e]))) \<and>
   upper (hexlify (blake2b 32 ([0x1, 0x23, 0x45, 0x67, 0x89, 0xab, 0xcd, 0xef, 0x1, 0x23, 0x45, 0x67, 0x89, 0xab,
        0xcd, 0xef, 0x1, 0x23, 0x45, 0x67, 0x89, 0xab, 0xcd, 0xef, 0x1, 0x23, 0x45, 0x67,
        0x89, 0xab, 0xcd, 0xef] @ [0, 0, 0, 0]))) =
     ''2837D62D197B04AA7A182C180226AC08AE74767D084DF10B8FA4D7C52150141E'' \<and>
   upper (hexlify (blake2b 32 ([0x1, 0x23, 0x45, 0x67, 0x89, 0xab, 0xcd, 0xef, 0x1, 0x23, 0x45, 0x67, 0x89, 0xab,
        0xcd, 0xef, 0x1, 0x23, 0x45, 0x67, 0x89, 0xab, 0xcd, 0xef, 0x1, 0x23, 0x45, 0x67,
        0x89, 0xab, 0xcd, 0xef] @ [0, 0, 0, 1]))) =
     ''2D90D2F5046812A2BE734A10F67B1F0F63A78D88175837DFF2FB977620AA5128''"
proof -
  have s: "unhexlify ''0123456789ABCDEF0123456789ABCDEF0123456789ABCDEF0123456789ABCDEF'' =
      Inr [0x1, 0x23, 0x45, 0x67, 0x89, 0xab, 0xcd, 0xef, 0x1, 0x23, 0x45, 0x67, 0x89, 0xab,
        0xcd, 0xef, 0x1, 0x23, 0x45, 0x67, 0x89, 0xab, 0xcd, 0xef, 0x1, 0x23, 0x45, 0x67,
        0x89, 0xab, 0xcd, 0xef]"
    by code_simp
  have d0: "blake2b 32 ([0x1, 0x23, 0x45, 0x67, 0x89, 0xab, 0xcd, 0xef, 0x1, 0x23, 0x45, 0x67, 0x89, 0xab,
        0xcd, 0xef, 0x1, 0x23, 0x45, 0x67, 0x89, 0xab, 0xcd, 0xef, 0x1, 0x23, 0x45, 0x67,
        0x89, 0xab, 0xcd, 0xef] @ [0, 0, 0, 0]) =
      [0x28, 0x37, 0xd6, 0x2d, 0x19, 0x7b, 0x4, 0xaa, 0x7a, 0x18, 0x2c, 0x18, 0x2, 0x26,
        0xac, 0x8, 0xae, 0x74, 0x76, 0x7d, 0x8, 0x4d, 0xf1, 0xb, 0x8f, 0xa4, 0xd7, 0xc5,
        0x21, 0x50, 0x14, 0x1e]"
    by code_simp
  have h0: "upper (hexlify [0x28, 0x37, 0xd6, 0x2d, 0x19, 0x7b, 0x4, 0xaa, 0x7a, 0x18, 0x2c, 0x18, 0x2, 0x26,
        0xac, 0x8, 0xae, 0x74, 0x76, 0x7d, 0x8, 0x4d, 0xf1, 0xb, 0x8f, 0xa4, 0xd7, 0xc5,
        0x21, 0x50, 0x14, 0x1e]) =
      ''2837D62D197B04AA7A182C180226AC08AE74767D084DF10B8FA4D7C52150141E''"
    by code_simp
  have d1: "upper (hexlify (blake2b 32 ([0x1, 0x23, 0x45, 0x67, 0x89, 0xab, 0xcd, 0xef, 0x1, 0x23, 0x45, 0x67, 0x89, 0xab,
        0xcd, 0xef, 0x1, 0x23, 0x45, 0x67, 0x89, 0xab, 0xcd, 0xef, 0x1, 0x23, 0x45, 0x67,
        0x89, 0xab, 0xcd, 0xef] @ [0, 0, 0, 1]))) =
     ''2D90D2F5046812A2BE734A10F67B1F0F63A78D88175837DFF2FB977620AA5128''"
    by code_simp
  have "generate_public_private_key_pairs verifying_key
     ''0123456789ABCDEF0123456789ABCDEF0123456789ABCDEF0123456789ABCDEF'' 1 =
     Inr (upper (hexlify (blake2b 32 ([0x1, 0x23, 0x45, 0x67, 0x89, 0xab, 0xcd, 0xef, 0x1, 0x23, 0x45, 0x67, 0x89, 0xab,
        0xcd, 0xef, 0x1, 0x23, 0x45, 0x67, 0x89, 0xab, 0xcd, 0xef, 0x1, 0x23, 0x45, 0x67,
        0x89, 0xab, 0xcd, 0xef] @ [0, 0, 0, 0]))),
          upper (hexlify (verifying_key (blake2b 32 ([0x1, 0x23, 0x45, 0x67, 0x89, 0xab, 0xcd, 0xef, 0x1, 0x23, 0x45, 0x67, 0x89, 0xab,
        0xcd, 0xef, 0x1, 0x23, 0x45, 0x67, 0x89, 0xab, 0xcd, 0xef, 0x1, 0x23, 0x45, 0x67,
        0x89, 0xab, 0xcd, 0xef] @ [0, 0, 0, 0])))))"
    by (rule private_key_ignores_index [OF _ _ s]) simp_all
  then show ?thesis
    by (simp only: d0 h0 d1 simp_thms)
qed

text \<open>Claim C2, evaluated at the indices 0 and 1 of any seed: the two calls return the same
  result, so two different indices do not give different key pairs.  (That repeated calls
  with one index agree holds of any function of the model.)\<close>

theorem key_pairs_of_index_zero_and_one:
  "generate_public_private_key_pairs verifying_key seed 0 =
   generate_public_private_key_pairs verifying_key seed 1"
  by (rule key_pair_ignores_index) simp_all

text \<open>Claim C9, the counterexample.  The test on \<open>previous\<close> asks for one distinct character,
  the character \<open>0\<close>, and not for a length: with \<open>previous = '00'\<close>, which is not the 64
  zeros, the work base is still the public key of the account and not the byte that
  \<open>previous\<close> encodes.\<close>

theorem get_block_hash_short_zero_previous:
  "get_block_hash (example_open_block\<lparr>previous := ''00''\<rparr>) =
     Inr ''12ABE40E10BADF9C9CB578FAD0FEC68E480C54DDA5472B79EB66B27173180A69'' \<and>
   previous (example_open_block\<lparr>previous := ''00''\<rparr>) \<noteq> replicate 64 (CHR ''0'') \<and>
   unhexlify (previous (example_open_block\<lparr>previous := ''00''\<rparr>)) = Inr [0]"
  by (intro conjI; code_simp)

text \<open>Claim C9, as amended.  The work base that \<open>compute_work\<close> and \<open>validate_work\<close> feed to
  the hash after the reversed nonce is \<open>work_base\<close>: when \<open>previous\<close> is a non-empty text of
  \<open>0\<close> characters only, of any length (the 64 zeros included), the bytes of the public key
  that the account address decodes to; for every other \<open>previous\<close> the bytes that
  \<open>previous\<close> itself encodes.  The search returns what its loop finds over that base (or
  the error of decoding it), a nonce it returns meets the difficulty over that base, and
  the validator compares the digest over that base.\<close>

theorem work_base_selection:
  "compute_work b difficulty draws =
     (case work_base b of
        Inl e \<Rightarrow> Inl e
      | Inr base \<Rightarrow> Inr (work_loop base difficulty draws)) \<and>
   (compute_work b difficulty draws = Inr (Some found) \<longrightarrow>
      (\<exists>base bin_nonce. work_base b = Inr base \<and> unhexlify found = Inr bin_nonce \<and>
         str_ge (hexlify (rev (blake2b 8 (rev bin_nonce @ base)))) difficulty)) \<and>
   validate_work b (Some nonce) difficulty =
     (if nonce = [] then Inr False
      else case work_base b of
             Inl e \<Rightarrow> Inl e
           | Inr base \<Rightarrow>
               (case unhexlify nonce of
                  Inl e \<Rightarrow> Inl e
                | Inr bin_nonce \<Rightarrow>
                    Inr (str_ge (hexlify (rev (blake2b 8 (rev bin_nonce @ base))))
                           difficulty))) \<and>
   (previous b \<noteq> [] \<and> list_all (\<lambda>c. c = CHR ''0'') (previous b) \<and>
    derive_public_key_from_address (account b) = Inr (upper (hexlify k)) \<longrightarrow>
      work_base b = Inr k) \<and>
   (previous b = [] \<or> \<not> list_all (\<lambda>c. c = CHR ''0'') (previous b) \<longrightarrow>
      work_base b = unhexlify (previous b))"
proof (intro conjI impI)
  show "compute_work b difficulty draws =
     (case work_base b of
        Inl e \<Rightarrow> Inl e
      | Inr base \<Rightarrow> Inr (work_loop base difficulty draws))"
    by (rule compute_work_work_base)
next
  assume "compute_work b difficulty draws = Inr (Some found)"
  then obtain base where base: "work_base b = Inr base"
    and loop: "work_loop base difficulty draws = Some found"
    by (auto simp: compute_work_work_base split: sum.splits)
  from work_loop_Some [OF loop] obtain candidate where
    "found = hexlify (rev candidate)"
    "str_ge (work_of_candidate candidate base) difficulty"
    by blast
  then have "unhexlify found = Inr (rev candidate)"
    and "str_ge (hexlify (rev (blake2b 8 (rev (rev candidate) @ base)))) difficulty"
    by (simp_all add: work_of_candidate_def WORK_SIZE_BYTES_def)
  with base show "\<exists>base bin_nonce. work_base b = Inr base \<and> unhexlify found = Inr bin_nonce \<and>
         str_ge (hexlify (rev (blake2b 8 (rev bin_nonce @ base)))) difficulty"
    by blast
next
  show "validate_work b (Some nonce) difficulty =
     (if nonce = [] then Inr False
      else case work_base b of
             Inl e \<Rightarrow> Inl e
           | Inr base \<Rightarrow>
               (case unhexlify nonce of
                  Inl e \<Rightarrow> Inl e
                | Inr bin_nonce \<Rightarrow>
                    Inr (str_ge (hexlify (rev (blake2b 8 (rev bin_nonce @ base))))
                           difficulty)))"
    by (rule validate_work_work_base)
next
  assume "previous b \<noteq> [] \<and> list_all (\<lambda>c. c = CHR ''0'') (previous b) \<and>
    derive_public_key_from_address (account b) = Inr (upper (hexlify k))"
  then show "work_base b = Inr k"
    by (simp add: work_base_def)
next
  assume "previous b = [] \<or> \<not> list_all (\<lambda>c. c = CHR ''0'') (previous b)"
  then show "work_base b = unhexlify (previous b)"
    by (auto simp: work_base_def)
qed

theorem work_base_selection_witness:
  "previous example_open_block \<noteq> [] \<and>
   list_all (\<lambda>c. c = CHR ''0'') (previous example_open_block) \<and>
   derive_public_key_from_address (account example_open_block) =
     Inr (upper (hexlify [0x12, 0xab, 0xe4, 0xe, 0x10, 0xba, 0xdf, 0x9c, 0x9c, 0xb5, 0x78, 0xfa, 0xd0, 0xfe,
        0xc6, 0x8e, 0x48, 0xc, 0x54, 0xdd, 0xa5, 0x47, 0x2b, 0x79, 0xeb, 0x66, 0xb2, 0x71,
        0x73, 0x18, 0xa, 0x69])) \<and>
   work_base example_open_block =
     Inr [0x12, 0xab, 0xe4, 0xe, 0x10, 0xba, 0xdf, 0x9c, 0x9c, 0xb5, 0x78, 0xfa, 0xd0, 0xfe,
        0xc6, 0x8e, 0x48, 0xc, 0x54, 0xdd, 0xa5, 0x47, 0x2b, 0x79, 0xeb, 0x66, 0xb2, 0x71,
        0x73, 0x18, 0xa, 0x69] \<and>
   compute_work example_open_block MINIMUM_RECEIVE_NETWORK_DIFFICULTY [20741624] =
     Inr (Some ''00000000013c7df8'') \<and>
   (\<exists>base bin_nonce.
      work_base example_open_block = Inr base \<and>
      unhexlify ''00000000013c7df8'' = Inr bin_nonce \<and>
      str_ge (hexlify (rev (blake2b 8 (rev bin_nonce @ base))))
        MINIMUM_RECEIVE_NETWORK_DIFFICULTY) \<and>
   \<not> list_all (\<lambda>c. c = CHR ''0'') (previous example_send_block) \<and>
   work_base example_send_block = unhexlify (previous example_send_block)"
proof -
  have 1: "previous example_open_block \<noteq> []"
    by code_simp
  have 2: "list_all (\<lambda>c. c = CHR ''0'') (previous example_open_block)"
    by code_simp
  have 3: "derive_public_key_from_address (account example_open_block) =
     Inr (upper (hexlify [0x12, 0xab, 0xe4, 0xe, 0x10, 0xba, 0xdf, 0x9c, 0x9c, 0xb5, 0x78, 0xfa, 0xd0, 0xfe,
        0xc6, 0x8e, 0x48, 0xc, 0x54, 0xdd, 0xa5, 0x47, 0x2b, 0x79, 0xeb, 0x66, 0xb2, 0x71,
        0x73, 0x18, 0xa, 0x69]))"
    by code_simp
  have 4: "compute_work example_open_block MINIMUM_RECEIVE_NETWORK_DIFFICULTY [20741624] =
     Inr (Some ''00000000013c7df8'')"
    by code_simp
  have 5: "\<not> list_all (\<lambda>c. c = CHR ''0'') (previous example_send_block)"
    by code_simp
  from work_base_selection [of example_open_block MINIMUM_RECEIVE_NETWORK_DIFFICULTY
      "[20741624]" "''00000000013c7df8''" "''00000000013c7df8''"
      "[0x12, 0xab, 0xe4, 0xe, 0x10, 0xba, 0xdf, 0x9c, 0x9c, 0xb5, 0x78, 0xfa, 0xd0, 0xfe,
        0xc6, 0x8e, 0x48, 0xc, 0x54, 0xdd, 0xa5, 0x47, 0x2b, 0x79, 0xeb, 0x66, 0xb2, 0x71,
        0x73, 0x18, 0xa, 0x69]"]
    work_base_selection [of example_send_block MINIMUM_RECEIVE_NETWORK_DIFFICULTY
      "[20741624]" "''00000000013c7df8''" "''00000000013c7df8''"
      "[0x12, 0xab, 0xe4, 0xe, 0x10, 0xba, 0xdf, 0x9c, 0x9c, 0xb5, 0x78, 0xfa, 0xd0, 0xfe,
        0xc6, 0x8e, 0x48, 0xc, 0x54, 0xdd, 0xa5, 0x47, 0x2b, 0x79, 0xeb, 0x66, 0xb2, 0x71,
        0x73, 0x18, 0xa, 0x69]"]
    1 2 3 4 5
  show ?thesis
    by blast
qed

text \<open>Claim C4, the counterexample.  The second pattern is \<open>^[a-fA-F0-9]+$\<close>, with no
  length: the link \<open>ab\<close>, two hexadecimal digits, is returned as it is, and
  \<open>create_block_hash\<close> hashes the one byte it encodes as the link payload.\<close>

theorem short_hex_link_accepted:
  "process_link_data (example_send_block\<lparr>link := ''ab''\<rparr>) = Inr ''ab'' \<and>
   create_block_hash (example_send_block\<lparr>link := ''ab''\<rparr>) =
     Inr [0xbf, 0x4c, 0x1c, 0x21, 0x53, 0x7e, 0x5d, 0xe7, 0x3d, 0x66, 0x8b, 0xa7, 0x77, 0x28,
        0x8a, 0xc0, 0x3c, 0x96, 0x44, 0x81, 0x5c, 0xfb, 0x72, 0x7d, 0xec, 0x3f, 0x2d, 0xd,
        0x58, 0x20, 0xc7, 0xe]"
  by (intro conjI; code_simp)

text \<open>Claim C4, as amended.  \<open>process_link_data\<close> fails with the error of the link format
  exactly when the link matches neither the address pattern nor the pattern of a non-empty
  run of hexadecimal digits.  \<open>create_block_hash\<close> fails with that error exactly when, in
  addition, the account, the representative, \<open>previous\<close> and the balance are processed
  without error: they are processed before the link, and their errors come first.  Every
  non-empty text of hexadecimal digits, of whatever length, is returned unchanged by
  \<open>process_link_data\<close>, and \<open>create_block_hash\<close> does not fail with the error of the link
  format on it.  (A text of \<open>0\<close> characters is such a run, so the third branch of
  \<open>process_link_data\<close> is never the one taken.)\<close>

theorem process_link_data_rejects:
  "(process_link_data b = Inl UnknownBlockType) =
     (\<not> match_nano_address (link b) \<and> \<not> match_hex (link b)) \<and>
   (create_block_hash b = Inl UnknownBlockType) =
     ((\<exists>account_hex representative_hex previous_bytes n balance_bytes.
         derive_public_key_from_address (account b) = Inr account_hex \<and>
         derive_public_key_from_address (representative b) = Inr representative_hex \<and>
         unhexlify (previous b) = Inr previous_bytes \<and>
         py_int (balance b) = Inr n \<and>
         to_bytes_big 16 n = Inr balance_bytes) \<and>
      \<not> match_nano_address (link b) \<and> \<not> match_hex (link b)) \<and>
   (hex_shape (link b) \<longrightarrow>
      process_link_data b = Inr (link b) \<and> create_block_hash b \<noteq> Inl UnknownBlockType)"
proof -
  have p: "(process_link_data b = Inl UnknownBlockType) =
     (\<not> match_nano_address (link b) \<and> \<not> match_hex (link b))"
    using all_zero_match_hex [of "link b"] derive_public_key_from_address_errors [of "link b"]
    by (auto simp: process_link_data_def)
  have c: "(create_block_hash b = Inl UnknownBlockType) =
     ((\<exists>account_hex representative_hex previous_bytes n balance_bytes.
         derive_public_key_from_address (account b) = Inr account_hex \<and>
         derive_public_key_from_address (representative b) = Inr representative_hex \<and>
         unhexlify (previous b) = Inr previous_bytes \<and>
         py_int (balance b) = Inr n \<and>
         to_bytes_big 16 n = Inr balance_bytes) \<and>
      process_link_data b = Inl UnknownBlockType)"
    using create_block_hash_link_error [of b] create_block_hash_reaches_link [of b]
    by blast
  have h: "process_link_data b = Inr (link b) \<and> create_block_hash b \<noteq> Inl UnknownBlockType"
    if "hex_shape (link b)"
  proof -
    from that have m: "match_hex (link b)"
      by (rule hex_shape_match_hex)
    then have "process_link_data b = Inr (link b)"
      using match_hex_not_address [of "link b"] by (simp add: process_link_data_def)
    moreover from m p c have "create_block_hash b \<noteq> Inl UnknownBlockType"
      by blast
    ultimately show ?thesis ..
  qed
  from p c h show ?thesis
    by (simp only: simp_thms) blast
qed

theorem process_link_data_rejects_witness:
  "hex_shape (link (example_send_block\<lparr>link := ''ab''\<rparr>)) \<and>
   process_link_data (example_send_block\<lparr>link := ''ab''\<rparr>) =
     Inr (link (example_send_block\<lparr>link := ''ab''\<rparr>)) \<and>
   create_block_hash (example_send_block\<lparr>link := ''ab''\<rparr>) \<noteq> Inl UnknownBlockType \<and>
   \<not> match_nano_address (link (example_send_block\<lparr>link := ''zz''\<rparr>)) \<and>
   \<not> match_hex (link (example_send_block\<lparr>link := ''zz''\<rparr>)) \<and>
   process_link_data (example_send_block\<lparr>link := ''zz''\<rparr>) = Inl UnknownBlockType \<and>
   create_block_hash (example_send_block\<lparr>link := ''zz''\<rparr>) = Inl UnknownBlockType"
proof -
  have h: "hex_shape (link (example_send_block\<lparr>link := ''ab''\<rparr>))"
    by code_simp
  have n: "\<not> match_nano_address (link (example_send_block\<lparr>link := ''zz''\<rparr>))"
    by code_simp
  have x: "\<not> match_hex (link (example_send_block\<lparr>link := ''zz''\<rparr>))"
    by code_simp
  have 1: "derive_public_key_from_address (account (example_send_block\<lparr>link := ''zz''\<rparr>)) =
      Inr (upper (hexlify [0x12, 0xab, 0xe4, 0xe, 0x10, 0xba, 0xdf, 0x9c, 0x9c, 0xb5, 0x78, 0xfa, 0xd0, 0xfe,
        0xc6, 0x8e, 0x48, 0xc, 0x54, 0xdd, 0xa5, 0x47, 0x2b, 0x79, 0xeb, 0x66, 0xb2, 0x71,
        0x73, 0x18, 0xa, 0x69]))"
    by code_simp
  have 2: "derive_public_key_from_address
        (representative (example_send_block\<lparr>link := ''zz''\<rparr>)) =
      Inr (upper (hexlify [0x71, 0x94, 0x45, 0x2b, 0x79, 0x97, 0xa9, 0xf5, 0xab, 0xb2, 0xf4, 0x34, 0xdb, 0x1,
        0xc, 0xa1, 0x8b, 0x5a, 0x27, 0x15, 0xd1, 0x41, 0xf9, 0xcf, 0xa6, 0x4a, 0x29, 0x6b,
        0x3e, 0xb4, 0xdc, 0xcd]))"
    by code_simp
  have 3: "unhexlify (previous (example_send_block\<lparr>link := ''zz''\<rparr>)) =
      Inr [0xff, 0x47, 0x45, 0x14, 0xe2, 0xb7, 0xde, 0xd9, 0x7a, 0x66, 0x5c, 0x21, 0x21, 0xc,
        0x27, 0x3e, 0xfb, 0x6a, 0x6d, 0x4e, 0xd4, 0xa3, 0xe, 0xaa, 0xe7, 0x61, 0x83, 0x7d,
        0x3f, 0xed, 0x25, 0xf3]"
    by code_simp
  have 4: "py_int (balance (example_send_block\<lparr>link := ''zz''\<rparr>)) = Inr 1"
    by code_simp
  have 5: "to_bytes_big 16 1 = Inr [0x0, 0x0, 0x0, 0x0, 0x0, 0x0, 0x0, 0x0, 0x0, 0x0, 0x0, 0x0, 0x0, 0x0, 0x0, 0x1]"
    by code_simp
  from process_link_data_rejects [of "example_send_block\<lparr>link := ''ab''\<rparr>"]
    process_link_data_rejects [of "example_send_block\<lparr>link := ''zz''\<rparr>"]
    h n x 1 2 3 4 5
  show ?thesis
    by blast
qed

text \<open>Claim C5, evaluated at the key of 32 bytes \<open>FF\<close>.  Its address is
  \<open>nano_3zzz...c3yoon41\<close>, which decodes to the key.  The same body and checksum after
  \<open>xrb_\<close> pass the pattern, but the slice \<open>address[5:-8]\<close> supposes a prefix of five
  characters: after the four of \<open>xrb_\<close> it drops the first character of the body, 51
  characters are decoded, and the checksum no longer matches.\<close>

theorem xrb_address_rejected:
  "derive_address_from_public_key
     ''FFFFFFFFFFFFFFFFFFFFFFFFFFFFFFFFFFFFFFFFFFFFFFFFFFFFFFFFFFFFFFFF'' =
     Inr ''nano_3zzzzzzzzzzzzzzzzzzzzzzzzzzzzzzzzzzzzzzzzzzzzzzzzzzzc3yoon41'' \<and>
   derive_public_key_from_address
     ''nano_3zzzzzzzzzzzzzzzzzzzzzzzzzzzzzzzzzzzzzzzzzzzzzzzzzzzc3yoon41'' =
     Inr ''FFFFFFFFFFFFFFFFFFFFFFFFFFFFFFFFFFFFFFFFFFFFFFFFFFFFFFFFFFFFFFFF'' \<and>
   match_nano_address ''xrb_3zzzzzzzzzzzzzzzzzzzzzzzzzzzzzzzzzzzzzzzzzzzzzzzzzzzc3yoon41'' \<and>
   derive_public_key_from_address
     ''xrb_3zzzzzzzzzzzzzzzzzzzzzzzzzzzzzzzzzzzzzzzzzzzzzzzzzzzc3yoon41'' =
     Inl InvalidChecksum"
  by (intro conjI; code_simp)

text \<open>Claim C3, the counterexample.  \<open>STATE_BLOCK_HEADER_BYTES\<close> is \<open>unhexlify\<close> of 64
  hexadecimal digits: 32 bytes, 31 zero bytes and then the byte 6, not 33 bytes.  The
  sizes of the fields that follow are not checked: on the example send block with
  \<open>previous = 'AB'\<close> one byte is hashed for \<open>previous\<close>, with \<open>link = 'ab'\<close> one byte is
  hashed as the link payload, and with an \<open>xrb_\<close> account whose checksum fits the 51
  characters that the slice keeps, a key of 31 bytes is hashed.\<close>

theorem block_hash_header_and_field_sizes:
  "length STATE_BLOCK_HEADER_BYTES = 32 \<and>
   STATE_BLOCK_HEADER_BYTES = replicate 31 0 @ [6] \<and>
   STATE_BLOCK_HEADER_BYTES \<noteq> replicate 32 0 @ [6] \<and>
   create_block_hash (example_send_block\<lparr>previous := ''AB''\<rparr>) =
     Inr (blake2b 32 (replicate 31 0 @ [6] @
        [0x12, 0xab, 0xe4, 0xe, 0x10, 0xba, 0xdf, 0x9c, 0x9c, 0xb5, 0x78, 0xfa, 0xd0, 0xfe,
        0xc6, 0x8e, 0x48, 0xc, 0x54, 0xdd, 0xa5, 0x47, 0x2b, 0x79, 0xeb, 0x66, 0xb2, 0x71,
        0x73, 0x18, 0xa, 0x69] @
        [0xAB] @
        [0x71, 0x94, 0x45, 0x2b, 0x79, 0x97, 0xa9, 0xf5, 0xab, 0xb2, 0xf4, 0x34, 0xdb, 0x1,
        0xc, 0xa1, 0x8b, 0x5a, 0x27, 0x15, 0xd1, 0x41, 0xf9, 0xcf, 0xa6, 0x4a, 0x29, 0x6b,
        0x3e, 0xb4, 0xdc, 0xcd] @
        [0x0, 0x0, 0x0, 0x0, 0x0, 0x0, 0x0, 0x0, 0x0, 0x0, 0x0, 0x0, 0x0, 0x0, 0x0, 0x1] @
        [0x71, 0x94, 0x45, 0x2b, 0x79, 0x97, 0xa9, 0xf5, 0xab, 0xb2, 0xf4, 0x34, 0xdb, 0x1,
        0xc, 0xa1, 0x8b, 0x5a, 0x27, 0x15, 0xd1, 0x41, 0xf9, 0xcf, 0xa6, 0x4a, 0x29, 0x6b,
        0x3e, 0xb4, 0xdc, 0xcd])) \<and>
   create_block_hash (example_send_block\<lparr>link := ''ab''\<rparr>) =
     Inr (blake2b 32 (replicate 31 0 @ [6] @
        [0x12, 0xab, 0xe4, 0xe, 0x10, 0xba, 0xdf, 0x9c, 0x9c, 0xb5, 0x78, 0xfa, 0xd0, 0xfe,
        0xc6, 0x8e, 0x48, 0xc, 0x54, 0xdd, 0xa5, 0x47, 0x2b, 0x79, 0xeb, 0x66, 0xb2, 0x71,
        0x73, 0x18, 0xa, 0x69] @
        [0xff, 0x47, 0x45, 0x14, 0xe2, 0xb7, 0xde, 0xd9, 0x7a, 0x66, 0x5c, 0x21, 0x21, 0xc,
        0x27, 0x3e, 0xfb, 0x6a, 0x6d, 0x4e, 0xd4, 0xa3, 0xe, 0xaa, 0xe7, 0x61, 0x83, 0x7d,
        0x3f, 0xed, 0x25, 0xf3] @
        [0x71, 0x94, 0x45, 0x2b, 0x79, 0x97, 0xa9, 0xf5, 0xab, 0xb2, 0xf4, 0x34, 0xdb, 0x1,
        0xc, 0xa1, 0x8b, 0x5a, 0x27, 0x15, 0xd1, 0x41, 0xf9, 0xcf, 0xa6, 0x4a, 0x29, 0x6b,
        0x3e, 0xb4, 0xdc, 0xcd] @
        [0x0, 0x0, 0x0, 0x0, 0x0, 0x0, 0x0, 0x0, 0x0, 0x0, 0x0, 0x0, 0x0, 0x0, 0x0, 0x1] @
        [0xAB])) \<and>
   create_block_hash (example_send_block\<lparr>account := ''xrb_11131a3ia3a81w61k4id3i8iw5ri46b3871o4rdji8at5eg3t9izyura5ybe''\<rparr>) =
     Inr (blake2b 32 (replicate 31 0 @ [6] @
        [0x1, 0x2, 0x3, 0x4, 0x5, 0x6, 0x7, 0x8, 0x9, 0xa, 0xb, 0xc, 0xd, 0xe, 0xf, 0x10,
        0x11, 0x12, 0x13, 0x14, 0x15, 0x16, 0x17, 0x18, 0x19, 0x1a, 0x1b, 0x1c, 0x1d, 0x1e,
        0x1f] @
        [0xff, 0x47, 0x45, 0x14, 0xe2, 0xb7, 0xde, 0xd9, 0x7a, 0x66, 0x5c, 0x21, 0x21, 0xc,
        0x27, 0x3e, 0xfb, 0x6a, 0x6d, 0x4e, 0xd4, 0xa3, 0xe, 0xaa, 0xe7, 0x61, 0x83, 0x7d,
        0x3f, 0xed, 0x25, 0xf3] @
        [0x71, 0x94, 0x45, 0x2b, 0x79, 0x97, 0xa9, 0xf5, 0xab, 0xb2, 0xf4, 0x34, 0xdb, 0x1,
        0xc, 0xa1, 0x8b, 0x5a, 0x27, 0x15, 0xd1, 0x41, 0xf9, 0xcf, 0xa6, 0x4a, 0x29, 0x6b,
        0x3e, 0xb4, 0xdc, 0xcd] @
        [0x0, 0x0, 0x0, 0x0, 0x0, 0x0, 0x0, 0x0, 0x0, 0x0, 0x0, 0x0, 0x0, 0x0, 0x0, 0x1] @
        [0x71, 0x94, 0x45, 0x2b, 0x79, 0x97, 0xa9, 0xf5, 0xab, 0xb2, 0xf4, 0x34, 0xdb, 0x1,
        0xc, 0xa1, 0x8b, 0x5a, 0x27, 0x15, 0xd1, 0x41, 0xf9, 0xcf, 0xa6, 0x4a, 0x29, 0x6b,
        0x3e, 0xb4, 0xdc, 0xcd])) \<and>
   length ([0x1, 0x2, 0x3, 0x4, 0x5, 0x6, 0x7, 0x8, 0x9, 0xa, 0xb, 0xc, 0xd, 0xe, 0xf, 0x10,
        0x11, 0x12, 0x13, 0x14, 0x15, 0x16, 0x17, 0x18, 0x19, 0x1a, 0x1b, 0x1c, 0x1d, 0x1e,
        0x1f] :: bytes) = 31"
proof (intro conjI)
  show "length STATE_BLOCK_HEADER_BYTES = 32"
    by code_simp
  show "STATE_BLOCK_HEADER_BYTES = replicate 31 0 @ [6]"
    by code_simp
  show "STATE_BLOCK_HEADER_BYTES \<noteq> replicate 32 0 @ [6]"
    by code_simp
  show "create_block_hash (example_send_block\<lparr>previous := ''AB''\<rparr>) =
     Inr (blake2b 32 (replicate 31 0 @ [6] @
        [0x12, 0xab, 0xe4, 0xe, 0x10, 0xba, 0xdf, 0x9c, 0x9c, 0xb5, 0x78, 0xfa, 0xd0, 0xfe,
        0xc6, 0x8e, 0x48, 0xc, 0x54, 0xdd, 0xa5, 0x47, 0x2b, 0x79, 0xeb, 0x66, 0xb2, 0x71,
        0x73, 0x18, 0xa, 0x69] @
        [0xAB] @
        [0x71, 0x94, 0x45, 0x2b, 0x79, 0x97, 0xa9, 0xf5, 0xab, 0xb2, 0xf4, 0x34, 0xdb, 0x1,
        0xc, 0xa1, 0x8b, 0x5a, 0x27, 0x15, 0xd1, 0x41, 0xf9, 0xcf, 0xa6, 0x4a, 0x29, 0x6b,
        0x3e, 0xb4, 0xdc, 0xcd] @
        [0x0, 0x0, 0x0, 0x0, 0x0, 0x0, 0x0, 0x0, 0x0, 0x0, 0x0, 0x0, 0x0, 0x0, 0x0, 0x1] @
        [0x71, 0x94, 0x45, 0x2b, 0x79, 0x97, 0xa9, 0xf5, 0xab, 0xb2, 0xf4, 0x34, 0xdb, 0x1,
        0xc, 0xa1, 0x8b, 0x5a, 0x27, 0x15, 0xd1, 0x41, 0xf9, 0xcf, 0xa6, 0x4a, 0x29, 0x6b,
        0x3e, 0xb4, 0xdc, 0xcd]))"
    by (rule create_block_hash_of_fields
        [where n = 1 and link_hex = "upper (hexlify [0x71, 0x94, 0x45, 0x2b, 0x79, 0x97, 0xa9, 0xf5, 0xab, 0xb2, 0xf4, 0x34, 0xdb, 0x1,
        0xc, 0xa1, 0x8b, 0x5a, 0x27, 0x15, 0xd1, 0x41, 0xf9, 0xcf, 0xa6, 0x4a, 0x29, 0x6b,
        0x3e, 0xb4, 0xdc, 0xcd])"];
        code_simp)
  show "create_block_hash (example_send_block\<lparr>link := ''ab''\<rparr>) =
     Inr (blake2b 32 (replicate 31 0 @ [6] @
        [0x12, 0xab, 0xe4, 0xe, 0x10, 0xba, 0xdf, 0x9c, 0x9c, 0xb5, 0x78, 0xfa, 0xd0, 0xfe,
        0xc6, 0x8e, 0x48, 0xc, 0x54, 0xdd, 0xa5, 0x47, 0x2b, 0x79, 0xeb, 0x66, 0xb2, 0x71,
        0x73, 0x18, 0xa, 0x69] @
        [0xff, 0x47, 0x45, 0x14, 0xe2, 0xb7, 0xde, 0xd9, 0x7a, 0x66, 0x5c, 0x21, 0x21, 0xc,
        0x27, 0x3e, 0xfb, 0x6a, 0x6d, 0x4e, 0xd4, 0xa3, 0xe, 0xaa, 0xe7, 0x61, 0x83, 0x7d,
        0x3f, 0xed, 0x25, 0xf3] @
        [0x71, 0x94, 0x45, 0x2b, 0x79, 0x97, 0xa9, 0xf5, 0xab, 0xb2, 0xf4, 0x34, 0xdb, 0x1,
        0xc, 0xa1, 0x8b, 0x5a, 0x27, 0x15, 0xd1, 0x41, 0xf9, 0xcf, 0xa6, 0x4a, 0x29, 0x6b,
        0x3e, 0xb4, 0xdc, 0xcd] @
        [0x0, 0x0, 0x0, 0x0, 0x0, 0x0, 0x0, 0x0, 0x0, 0x0, 0x0, 0x0, 0x0, 0x0, 0x0, 0x1] @
        [0xAB]))"
    by (rule create_block_hash_of_fields [where n = 1 and link_hex = "''ab''"]; code_simp)
  show "create_block_hash (example_send_block\<lparr>account := ''xrb_11131a3ia3a81w61k4id3i8iw5ri46b3871o4rdji8at5eg3t9izyura5ybe''\<rparr>) =
     Inr (blake2b 32 (replicate 31 0 @ [6] @
        [0x1, 0x2, 0x3, 0x4, 0x5, 0x6, 0x7, 0x8, 0x9, 0xa, 0xb, 0xc, 0xd, 0xe, 0xf, 0x10,
        0x11, 0x12, 0x13, 0x14, 0x15, 0x16, 0x17, 0x18, 0x19, 0x1a, 0x1b, 0x1c, 0x1d, 0x1e,
        0x1f] @
        [0xff, 0x47, 0x45, 0x14, 0xe2, 0xb7, 0xde, 0xd9, 0x7a, 0x66, 0x5c, 0x21, 0x21, 0xc,
        0x27, 0x3e, 0xfb, 0x6a, 0x6d, 0x4e, 0xd4, 0xa3, 0xe, 0xaa, 0xe7, 0x61, 0x83, 0x7d,
        0x3f, 0xed, 0x25, 0xf3] @
        [0x71, 0x94, 0x45, 0x2b, 0x79, 0x97, 0xa9, 0xf5, 0xab, 0xb2, 0xf4, 0x34, 0xdb, 0x1,
        0xc, 0xa1, 0x8b, 0x5a, 0x27, 0x15, 0xd1, 0x41, 0xf9, 0xcf, 0xa6, 0x4a, 0x29, 0x6b,
        0x3e, 0xb4, 0xdc, 0xcd] @
        [0x0, 0x0, 0x0, 0x0, 0x0, 0x0, 0x0, 0x0, 0x0, 0x0, 0x0, 0x0, 0x0, 0x0, 0x0, 0x1] @
        [0x71, 0x94, 0x45, 0x2b, 0x79, 0x97, 0xa9, 0xf5, 0xab, 0xb2, 0xf4, 0x34, 0xdb, 0x1,
        0xc, 0xa1, 0x8b, 0x5a, 0x27, 0x15, 0xd1, 0x41, 0xf9, 0xcf, 0xa6, 0x4a, 0x29, 0x6b,
        0x3e, 0xb4, 0xdc, 0xcd]))"
    by (rule create_block_hash_of_fields
        [where n = 1 and link_hex = "upper (hexlify [0x71, 0x94, 0x45, 0x2b, 0x79, 0x97, 0xa9, 0xf5, 0xab, 0xb2, 0xf4, 0x34, 0xdb, 0x1,
        0xc, 0xa1, 0x8b, 0x5a, 0x27, 0x15, 0xd1, 0x41, 0xf9, 0xcf, 0xa6, 0x4a, 0x29, 0x6b,
        0x3e, 0xb4, 0xdc, 0xcd])"];
        code_simp)
  show "length ([0x1, 0x2, 0x3, 0x4, 0x5, 0x6, 0x7, 0x8, 0x9, 0xa, 0xb, 0xc, 0xd, 0xe, 0xf, 0x10,
        0x11, 0x12, 0x13, 0x14, 0x15, 0x16, 0x17, 0x18, 0x19, 0x1a, 0x1b, 0x1c, 0x1d, 0x1e,
        0x1f] :: bytes) = 31"
    by simp
qed

text \<open>Claim C3, as amended.  For every block, \<open>create_block_hash\<close> returns a digest exactly
  when the account, \<open>previous\<close>, the representative, the balance and the link are all
  processed without error, and the digest is then the blake2b digest of, in this order, a
  constant header of 32 bytes (31 zero bytes, then the byte 6), the public key of the
  account, the bytes of \<open>previous\<close>, the public key of the representative, the balance as
  16 bytes big-endian, and the link payload.  The key of an address that starts with
  \<open>nano_\<close> is 32 bytes, \<open>previous\<close> is 32 bytes when it has 64 characters, and the payload
  is 32 bytes for a link of 64 hexadecimal digits or a \<open>nano_\<close> address.\<close>

theorem create_block_hash_layout:
  "(create_block_hash b = Inr digest) =
     (\<exists>account_key previous_bytes representative_key n balance_bytes link_hex link_bytes.
        derive_public_key_from_address (account b) = Inr (upper (hexlify account_key)) \<and>
        unhexlify (previous b) = Inr previous_bytes \<and>
        derive_public_key_from_address (representative b) =
          Inr (upper (hexlify representative_key)) \<and>
        py_int (balance b) = Inr n \<and>
        to_bytes_big 16 n = Inr balance_bytes \<and>
        length balance_bytes = 16 \<and>
        big_endian_value balance_bytes = n \<and>
        process_link_data b = Inr link_hex \<and>
        unhexlify link_hex = Inr link_bytes \<and>
        digest = blake2b 32 (replicate 31 0 @ [6] @ account_key @ previous_bytes @
                   representative_key @ balance_bytes @ link_bytes) \<and>
        (take 5 (account b) = ''nano_'' \<longrightarrow> length account_key = 32) \<and>
        (length (previous b) = 64 \<longrightarrow> length previous_bytes = 32) \<and>
        (take 5 (representative b) = ''nano_'' \<longrightarrow> length representative_key = 32) \<and>
        ((length (link b) = 64 \<and> hex_shape (link b)) \<or> take 5 (link b) = ''nano_'' \<longrightarrow>
           length link_bytes = 32)) \<and>
   length (replicate 31 (0 :: byte) @ [6]) = 32"
proof (intro conjI iffI)
  assume "create_block_hash b = Inr digest"
  from create_block_hash_fields [OF this] obtain account_key previous_bytes
      representative_key n balance_bytes link_hex link_bytes where
    a: "derive_public_key_from_address (account b) = Inr (upper (hexlify account_key))" and
    pb: "unhexlify (previous b) = Inr previous_bytes" and
    r: "derive_public_key_from_address (representative b) =
          Inr (upper (hexlify representative_key))" and
    n: "py_int (balance b) = Inr n" and
    bb: "to_bytes_big 16 n = Inr balance_bytes" and
    l: "process_link_data b = Inr link_hex" and
    lb: "unhexlify link_hex = Inr link_bytes" and
    d: "digest = blake2b 32 (replicate 31 0 @ [6] @ account_key @ previous_bytes @
                   representative_key @ balance_bytes @ link_bytes)"
    by blast
  have ak: "length account_key = 32" if "take 5 (account b) = ''nano_''"
  proof -
    from nano_address_key_length [OF a that] obtain k where
      "upper (hexlify account_key) = upper (hexlify k)" "length k = 32"
      by blast
    then show ?thesis
      by (metis length_hexlify length_upper mult_left_cancel zero_neq_numeral)
  qed
  have rk: "length representative_key = 32" if "take 5 (representative b) = ''nano_''"
  proof -
    from nano_address_key_length [OF r that] obtain k where
      "upper (hexlify representative_key) = upper (hexlify k)" "length k = 32"
      by blast
    then show ?thesis
      by (metis length_hexlify length_upper mult_left_cancel zero_neq_numeral)
  qed
  have pl: "length previous_bytes = 32" if "length (previous b) = 64"
    using unhexlify_length [OF pb] that by simp
  have ll: "length link_bytes = 32"
    if "(length (link b) = 64 \<and> hex_shape (link b)) \<or> take 5 (link b) = ''nano_''"
    by (rule link_payload_length [OF l lb that])
  note bal = to_bytes_big_value [OF bb]
  from a pb r n bb bal l lb d ak rk pl ll
  show "\<exists>account_key previous_bytes representative_key n balance_bytes link_hex link_bytes.
        derive_public_key_from_address (account b) = Inr (upper (hexlify account_key)) \<and>
        unhexlify (previous b) = Inr previous_bytes \<and>
        derive_public_key_from_address (representative b) =
          Inr (upper (hexlify representative_key)) \<and>
        py_int (balance b) = Inr n \<and>
        to_bytes_big 16 n = Inr balance_bytes \<and>
        length balance_bytes = 16 \<and>
        big_endian_value balance_bytes = n \<and>
        process_link_data b = Inr link_hex \<and>
        unhexlify link_hex = Inr link_bytes \<and>
        digest = blake2b 32 (replicate 31 0 @ [6] @ account_key @ previous_bytes @
                   representative_key @ balance_bytes @ link_bytes) \<and>
        (take 5 (account b) = ''nano_'' \<longrightarrow> length account_key = 32) \<and>
        (length (previous b) = 64 \<longrightarrow> length previous_bytes = 32) \<and>
        (take 5 (representative b) = ''nano_'' \<longrightarrow> length representative_key = 32) \<and>
        ((length (link b) = 64 \<and> hex_shape (link b)) \<or> take 5 (link b) = ''nano_'' \<longrightarrow>
           length link_bytes = 32)"
    by blast
next
  assume "\<exists>account_key previous_bytes representative_key n balance_bytes link_hex link_bytes.
        derive_public_key_from_address (account b) = Inr (upper (hexlify account_key)) \<and>
        unhexlify (previous b) = Inr previous_bytes \<and>
        derive_public_key_from_address (representative b) =
          Inr (upper (hexlify representative_key)) \<and>
        py_int (balance b) = Inr n \<and>
        to_bytes_big 16 n = Inr balance_bytes \<and>
        length balance_bytes = 16 \<and>
        big_endian_value balance_bytes = n \<and>
        process_link_data b = Inr link_hex \<and>
        unhexlify link_hex = Inr link_bytes \<and>
        digest = blake2b 32 (replicate 31 0 @ [6] @ account_key @ previous_bytes @
                   representative_key @ balance_bytes @ link_bytes) \<and>
        (take 5 (account b) = ''nano_'' \<longrightarrow> length account_key = 32) \<and>
        (length (previous b) = 64 \<longrightarrow> length previous_bytes = 32) \<and>
        (take 5 (representative b) = ''nano_'' \<longrightarrow> length representative_key = 32) \<and>
        ((length (link b) = 64 \<and> hex_shape (link b)) \<or> take 5 (link b) = ''nano_'' \<longrightarrow>
           length link_bytes = 32)"
  then obtain account_key previous_bytes representative_key n balance_bytes link_hex
      link_bytes where
    "derive_public_key_from_address (account b) = Inr (upper (hexlify account_key))"
    "unhexlify (previous b) = Inr previous_bytes"
    "derive_public_key_from_address (representative b) =
          Inr (upper (hexlify representative_key))"
    "py_int (balance b) = Inr n"
    "to_bytes_big 16 n = Inr balance_bytes"
    "process_link_data b = Inr link_hex"
    "unhexlify link_hex = Inr link_bytes"
    "digest = blake2b 32 (replicate 31 0 @ [6] @ account_key @ previous_bytes @
                   representative_key @ balance_bytes @ link_bytes)"
    by blast
  then show "create_block_hash b = Inr digest"
    by (simp only: create_block_hash_of_fields)
next
  show "length (replicate 31 (0 :: byte) @ [6]) = 32"
    by simp
qed

theorem create_block_hash_layout_witness:
  "create_block_hash example_send_block =
     Inr [0x4e, 0xbd, 0xdc, 0x6e, 0x7, 0xf3, 0x98, 0xc2, 0xf9, 0x67, 0xc, 0x14, 0x71, 0x3c,
        0xd9, 0x2b, 0x92, 0x81, 0x3c, 0x7c, 0x2a, 0xe4, 0x30, 0x22, 0x1, 0x16, 0xdd, 0xe7,
        0x78, 0x25, 0x64, 0x5] \<and>
   take 5 (account example_send_block) = ''nano_'' \<and>
   take 5 (representative example_send_block) = ''nano_'' \<and>
   length (previous example_send_block) = 64 \<and>
   take 5 (link example_send_block) = ''nano_'' \<and>
   (\<exists>account_key previous_bytes representative_key n balance_bytes link_hex link_bytes.
      derive_public_key_from_address (account example_send_block) =
        Inr (upper (hexlify account_key)) \<and>
      length account_key = 32 \<and>
      unhexlify (previous example_send_block) = Inr previous_bytes \<and>
      length previous_bytes = 32 \<and>
      derive_public_key_from_address (representative example_send_block) =
        Inr (upper (hexlify representative_key)) \<and>
      length representative_key = 32 \<and>
      py_int (balance example_send_block) = Inr n \<and>
      length balance_bytes = 16 \<and>
      big_endian_value balance_bytes = n \<and>
      process_link_data example_send_block = Inr link_hex \<and>
      unhexlify link_hex = Inr link_bytes \<and>
      length link_bytes = 32 \<and>
      [0x4e, 0xbd, 0xdc, 0x6e, 0x7, 0xf3, 0x98, 0xc2, 0xf9, 0x67, 0xc, 0x14, 0x71, 0x3c,
        0xd9, 0x2b, 0x92, 0x81, 0x3c, 0x7c, 0x2a, 0xe4, 0x30, 0x22, 0x1, 0x16, 0xdd, 0xe7,
        0x78, 0x25, 0x64, 0x5] =
        blake2b 32 (replicate 31 0 @ [6] @ account_key @ previous_bytes @
                 representative_key @ balance_bytes @ link_bytes))"
proof -
  have 1: "create_block_hash example_send_block =
     Inr [0x4e, 0xbd, 0xdc, 0x6e, 0x7, 0xf3, 0x98, 0xc2, 0xf9, 0x67, 0xc, 0x14, 0x71, 0x3c,
        0xd9, 0x2b, 0x92, 0x81, 0x3c, 0x7c, 0x2a, 0xe4, 0x30, 0x22, 0x1, 0x16, 0xdd, 0xe7,
        0x78, 0x25, 0x64, 0x5]"
    by code_simp
  have 2: "take 5 (account example_send_block) = ''nano_''"
    by code_simp
  have 3: "take 5 (representative example_send_block) = ''nano_''"
    by code_simp
  have 4: "length (previous example_send_block) = 64"
    by code_simp
  have 5: "take 5 (link example_send_block) = ''nano_''"
    by code_simp
  from create_block_hash_layout [of example_send_block
      "[0x4e, 0xbd, 0xdc, 0x6e, 0x7, 0xf3, 0x98, 0xc2, 0xf9, 0x67, 0xc, 0x14, 0x71, 0x3c,
        0xd9, 0x2b, 0x92, 0x81, 0x3c, 0x7c, 0x2a, 0xe4, 0x30, 0x22, 0x1, 0x16, 0xdd, 0xe7,
        0x78, 0x25, 0x64, 0x5]"] 1
  obtain account_key previous_bytes representative_key n balance_bytes link_hex link_bytes
    where
      "derive_public_key_from_address (account example_send_block) =
        Inr (upper (hexlify account_key))"
      "unhexlify (previous example_send_block) = Inr previous_bytes"
      "derive_public_key_from_address (representative example_send_block) =
        Inr (upper (hexlify representative_key))"
      "py_int (balance example_send_block) = Inr n"
      "length balance_bytes = 16"
      "big_endian_value balance_bytes = n"
      "process_link_data example_send_block = Inr link_hex"
      "unhexlify link_hex = Inr link_bytes"
      "[0x4e, 0xbd, 0xdc, 0x6e, 0x7, 0xf3, 0x98, 0xc2, 0xf9, 0x67, 0xc, 0x14, 0x71, 0x3c,
        0xd9, 0x2b, 0x92, 0x81, 0x3c, 0x7c, 0x2a, 0xe4, 0x30, 0x22, 0x1, 0x16, 0xdd, 0xe7,
        0x78, 0x25, 0x64, 0x5] =
        blake2b 32 (replicate 31 0 @ [6] @ account_key @ previous_bytes @
                 representative_key @ balance_bytes @ link_bytes)"
      "take 5 (account example_send_block) = ''nano_'' \<longrightarrow> length account_key = 32"
      "length (previous example_send_block) = 64 \<longrightarrow> length previous_bytes = 32"
      "take 5 (representative example_send_block) = ''nano_'' \<longrightarrow>
         length representative_key = 32"
      "(length (link example_send_block) = 64 \<and> hex_shape (link example_send_block)) \<or>
         take 5 (link example_send_block) = ''nano_'' \<longrightarrow> length link_bytes = 32"
    by blast
  with 1 2 3 4 5 show ?thesis
    by blast
qed

end
